theory Spec2Isabelle
  imports Main "HOL-Library.DAList"
begin

section \<open>Data model (internal/fileutils, internal/sync)\<close>

text \<open>
  \<^verbatim>\<open>fileutils.FileInfo\<close>. \<^verbatim>\<open>Size\<close> is an int64 byte count and \<^verbatim>\<open>ModTime\<close> a
  \<^verbatim>\<open>time.Time\<close>; the instant is modelled as an integer (nanoseconds since the epoch), the
  only operation the engine applies to it being \<^verbatim>\<open>After\<close>.
\<close>

record FileInfo =
  Path :: string
  Size :: int
  ModTime :: int
  Checksum :: string
  RelativePath :: string

definition After :: "int \<Rightarrow> int \<Rightarrow> bool" where
  "After t u = (u < t)"

text \<open>
  A Go \<^verbatim>\<open>map[string]fileutils.FileInfo\<close>: keys are unique, iteration order is whatever the
  runtime picks. The value is an association list with distinct keys, whose order stands
  for the order one \<^verbatim>\<open>range\<close> loop visits the entries in; \<open>None\<close> is the nil map, which
  reads like an empty one.
\<close>

type_synonym go_map = "(string, FileInfo) alist option"

definition map_get :: "go_map \<Rightarrow> string \<Rightarrow> FileInfo option" where
  "map_get m k = (case m of None \<Rightarrow> None | Some al \<Rightarrow> DAList.lookup al k)"

definition map_range :: "go_map \<Rightarrow> (string \<times> FileInfo) list" where
  "map_range m = (case m of None \<Rightarrow> [] | Some al \<Rightarrow> DAList.impl_of al)"

definition map_keys :: "go_map \<Rightarrow> string set" where
  "map_keys m = fst ` set (map_range m)"

definition make_map :: "go_map" where
  "make_map = Some DAList.empty"

definition map_put :: "string \<Rightarrow> FileInfo \<Rightarrow> go_map \<Rightarrow> go_map" where
  "map_put k v m = (case m of None \<Rightarrow> None | Some al \<Rightarrow> Some (DAList.update k v al))"

record Manifest =
  LastSync :: int
  Files :: go_map
  Bucket :: string
  Prefix :: string

datatype SyncOp = SyncOpUpload | SyncOpDownload | SyncOpDelete | SyncOpSkip

record SyncAction =
  Operation :: SyncOp
  File :: FileInfo
  ActionPath :: string
  Reason :: string

section \<open>The reconciliation engine: ComputeSyncActions\<close>

text \<open>
  The body of the first loop, for one entry \<open>(relativePath, localFile)\<close> of the local map.
  The two-valued map reads \<^verbatim>\<open>v, ok := m[k]\<close> are \<open>map_get\<close>; the value is used only
  where \<^verbatim>\<open>ok\<close> holds.
\<close>

definition check_local_file :: "go_map \<Rightarrow> go_map \<Rightarrow> string \<Rightarrow> FileInfo \<Rightarrow> SyncAction" where
  "check_local_file remoteFiles lastKnownFiles relativePath localFile =
     (case map_get remoteFiles relativePath of
        None \<Rightarrow>
          (case map_get lastKnownFiles relativePath of
             None \<Rightarrow>
               \<lparr>Operation = SyncOpUpload, File = localFile, ActionPath = relativePath,
                Reason = ''new local file''\<rparr>
           | Some lastKnownFile \<Rightarrow>
               \<lparr>Operation = SyncOpUpload, File = localFile, ActionPath = relativePath,
                Reason = ''deleted remotely, exists locally''\<rparr>)
      | Some remoteFile \<Rightarrow>
          (if Checksum localFile \<noteq> Checksum remoteFile then
             (case map_get lastKnownFiles relativePath of
                Some lastKnownFile \<Rightarrow>
                  (let localChanged = (Checksum localFile \<noteq> Checksum lastKnownFile);
                       remoteChanged = (Checksum remoteFile \<noteq> Checksum lastKnownFile)
                   in if localChanged \<and> \<not> remoteChanged then
                        \<lparr>Operation = SyncOpUpload, File = localFile, ActionPath = relativePath,
                         Reason = ''local file modified''\<rparr>
                      else if \<not> localChanged \<and> remoteChanged then
                        \<lparr>Operation = SyncOpDownload, File = remoteFile, ActionPath = relativePath,
                         Reason = ''remote file modified''\<rparr>
                      else if After (ModTime localFile) (ModTime remoteFile) then
                        \<lparr>Operation = SyncOpUpload, File = localFile, ActionPath = relativePath,
                         Reason = ''local file newer (conflict resolution)''\<rparr>
                      else
                        \<lparr>Operation = SyncOpDownload, File = remoteFile, ActionPath = relativePath,
                         Reason = ''remote file newer (conflict resolution)''\<rparr>)
              | None \<Rightarrow>
                  (if After (ModTime localFile) (ModTime remoteFile) then
                     \<lparr>Operation = SyncOpUpload, File = localFile, ActionPath = relativePath,
                      Reason = ''local file newer''\<rparr>
                   else
                     \<lparr>Operation = SyncOpDownload, File = remoteFile, ActionPath = relativePath,
                      Reason = ''remote file newer''\<rparr>))
           else
             \<lparr>Operation = SyncOpSkip, File = localFile, ActionPath = relativePath,
              Reason = ''files identical''\<rparr>))"

text \<open>The first loop: every entry of the local map appends one action.\<close>

fun check_local_files ::
  "go_map \<Rightarrow> go_map \<Rightarrow> (string \<times> FileInfo) list \<Rightarrow> SyncAction list \<Rightarrow> SyncAction list" where
  "check_local_files remoteFiles lastKnownFiles [] actions = actions"
| "check_local_files remoteFiles lastKnownFiles ((relativePath, localFile) # rest) actions =
     check_local_files remoteFiles lastKnownFiles rest
       (actions @ [check_local_file remoteFiles lastKnownFiles relativePath localFile])"

text \<open>
  The body of the second loop, for one entry \<open>(relativePath, remoteFile)\<close> of the remote
  map: the actions it appends, none when the path has a local entry.
\<close>

definition check_remote_file :: "go_map \<Rightarrow> go_map \<Rightarrow> string \<Rightarrow> FileInfo \<Rightarrow> SyncAction list" where
  "check_remote_file localFiles lastKnownFiles relativePath remoteFile =
     (case map_get localFiles relativePath of
        Some localFile \<Rightarrow> []
      | None \<Rightarrow>
          (case map_get lastKnownFiles relativePath of
             Some lastKnownFile \<Rightarrow>
               [\<lparr>Operation = SyncOpSkip, File = remoteFile, ActionPath = relativePath,
                 Reason = ''deleted locally''\<rparr>]
           | None \<Rightarrow>
               [\<lparr>Operation = SyncOpDownload, File = remoteFile, ActionPath = relativePath,
                 Reason = ''new remote file''\<rparr>]))"

fun check_remote_files ::
  "go_map \<Rightarrow> go_map \<Rightarrow> (string \<times> FileInfo) list \<Rightarrow> SyncAction list \<Rightarrow> SyncAction list" where
  "check_remote_files localFiles lastKnownFiles [] actions = actions"
| "check_remote_files localFiles lastKnownFiles ((relativePath, remoteFile) # rest) actions =
     check_remote_files localFiles lastKnownFiles rest
       (actions @ check_remote_file localFiles lastKnownFiles relativePath remoteFile)"

text \<open>
  The three arguments are \<^verbatim>\<open>*Manifest\<close> pointers (\<open>None\<close> is nil). The function reads
  \<^verbatim>\<open>.Files\<close> of each before either loop, with no nil check: a nil pointer makes the Go
  runtime panic there.
\<close>

datatype go_panic = NilPointerDereference

definition ComputeSyncActions ::
  "Manifest option \<Rightarrow> Manifest option \<Rightarrow> Manifest option \<Rightarrow> go_panic + SyncAction list" where
  "ComputeSyncActions localManifest remoteManifest lastKnownManifest =
     (case localManifest of
        None \<Rightarrow> Inl NilPointerDereference
      | Some lm \<Rightarrow>
     (case remoteManifest of
        None \<Rightarrow> Inl NilPointerDereference
      | Some rm \<Rightarrow>
     (case lastKnownManifest of
        None \<Rightarrow> Inl NilPointerDereference
      | Some km \<Rightarrow>
          (let actions = [];
               localFiles = Files lm;
               remoteFiles = Files rm;
               lastKnownFiles = Files km;
               actions = check_local_files remoteFiles lastKnownFiles (map_range localFiles) actions;
               actions = check_remote_files localFiles lastKnownFiles (map_range remoteFiles) actions
           in Inr actions))))"

text \<open>The actions an action list holds for one path.\<close>

definition actions_for :: "string \<Rightarrow> SyncAction list \<Rightarrow> SyncAction list" where
  "actions_for p actions = filter (\<lambda>a. ActionPath a = p) actions"

text \<open>A manifest with its nil \<^verbatim>\<open>Files\<close> map replaced by an empty map.\<close>

definition nil_as_empty :: "Manifest \<Rightarrow> Manifest" where
  "nil_as_empty m = (case Files m of None \<Rightarrow> m\<lparr>Files := make_map\<rparr> | Some al \<Rightarrow> m)"

section \<open>The file inventory producer: ScanDirectoryWithInfo (internal/fileutils)\<close>

text \<open>
  A path is kept as the list of its components, the form \<^verbatim>\<open>filepath.Clean\<close> normalises to;
  \<open>join_components\<close> renders it with the separator. \<^verbatim>\<open>filepath.Join\<close> of a path and a name
  appends the name, \<^verbatim>\<open>filepath.Base\<close> is the last component (\<^verbatim>\<open>"."\<close> for the empty path),
  and \<^verbatim>\<open>filepath.Rel\<close> of a base and a path below it is the rest of the path (\<^verbatim>\<open>"."\<close> for the
  base itself). \<^verbatim>\<open>filepath.Walk\<close> only hands the callback paths below its root, so the other
  cases of \<^verbatim>\<open>Rel\<close> are left as the error branch.
\<close>

type_synonym path = "string list"

fun join_components :: "string list \<Rightarrow> string" where
  "join_components [] = ''''"
| "join_components [c] = c"
| "join_components (c # cs) = c @ ''/'' @ join_components cs"

definition filepath_Join :: "path \<Rightarrow> string \<Rightarrow> path" where
  "filepath_Join p name = p @ [name]"

definition filepath_Base :: "path \<Rightarrow> string" where
  "filepath_Base p = (case p of [] \<Rightarrow> ''.'' | _ \<Rightarrow> last p)"

definition filepath_Rel :: "path \<Rightarrow> path \<Rightarrow> string option" where
  "filepath_Rel basepath targpath =
     (if take (length basepath) targpath = basepath
      then (case drop (length basepath) targpath of
              [] \<Rightarrow> Some ''.''
            | cs \<Rightarrow> Some (join_components cs))
      else None)"

text \<open>
  What the walk finds at a path: a non-directory entry with its size, modification time and
  the hex SHA-256 digest \<^verbatim>\<open>calculateFileChecksum\<close> computes (\<open>None\<close> when the file cannot be
  opened or read); a directory with its entries in the order \<^verbatim>\<open>filepath.Walk\<close> visits them
  (sorted by name); or an entry for which \<^verbatim>\<open>Walk\<close> passes the callback a non-nil error.
\<close>

datatype fs_node =
    FileEntry int int "string option"
  | Directory "(string \<times> fs_node) list"
  | Unreadable

datatype scan_error =
    DirectoryDoesNotExist | WalkError | RelError | ChecksumError | IndexOutOfRange

text \<open>
  The callback \<^verbatim>\<open>ScanDirectoryWithInfo\<close> gives to \<^verbatim>\<open>filepath.Walk\<close>, with the captured slice
  \<^verbatim>\<open>files\<close> passed and returned. \<^verbatim>\<open>filepath.Base(path)[0]\<close> indexes the first byte of the
  leaf name.
\<close>

definition walkFn :: "path \<Rightarrow> path \<Rightarrow> fs_node \<Rightarrow> FileInfo list \<Rightarrow> scan_error + FileInfo list" where
  "walkFn rootDir path info files =
     (case info of
        Unreadable \<Rightarrow> Inl WalkError
      | Directory entries \<Rightarrow> Inr files
      | FileEntry fileSize modTime digest \<Rightarrow>
          (case filepath_Base path of
             [] \<Rightarrow> Inl IndexOutOfRange
           | c # cs \<Rightarrow>
               if c = CHR ''.'' then Inr files
               else
                 (case filepath_Rel rootDir path of
                    None \<Rightarrow> Inl RelError
                  | Some relPath \<Rightarrow>
                      (case digest of
                         None \<Rightarrow> Inl ChecksumError
                       | Some checksum \<Rightarrow>
                           Inr (files @ [\<lparr>Path = join_components path, Size = fileSize,
                                          ModTime = modTime, Checksum = checksum,
                                          RelativePath = relPath\<rparr>])))))"

text \<open>
  \<^verbatim>\<open>filepath.Walk\<close>: the callback is called on the entry itself, then, for a directory, on
  every entry below it; the first error the callback returns ends the walk (the callback
  never returns \<^verbatim>\<open>SkipDir\<close>).
\<close>

fun walk :: "path \<Rightarrow> path \<Rightarrow> fs_node \<Rightarrow> FileInfo list \<Rightarrow> scan_error + FileInfo list"
and walk_names :: "path \<Rightarrow> path \<Rightarrow> (string \<times> fs_node) list \<Rightarrow> FileInfo list \<Rightarrow> scan_error + FileInfo list"
where
  "walk rootDir path (Directory entries) files =
     (case walkFn rootDir path (Directory entries) files of
        Inl err \<Rightarrow> Inl err
      | Inr files' \<Rightarrow> walk_names rootDir path entries files')"
| "walk rootDir path (FileEntry fileSize modTime digest) files =
     walkFn rootDir path (FileEntry fileSize modTime digest) files"
| "walk rootDir path Unreadable files = walkFn rootDir path Unreadable files"
| "walk_names rootDir path [] files = Inr files"
| "walk_names rootDir path ((name, info) # rest) files =
     (case walk rootDir (filepath_Join path name) info files of
        Inl err \<Rightarrow> Inl err
      | Inr files' \<Rightarrow> walk_names rootDir path rest files')"

text \<open>
  The second argument is what the file system holds at \<^verbatim>\<open>rootDir\<close>, \<open>None\<close> when
  \<^verbatim>\<open>os.Stat\<close> reports that it does not exist. The function takes no configuration.
\<close>

definition ScanDirectoryWithInfo :: "path \<Rightarrow> fs_node option \<Rightarrow> scan_error + FileInfo list" where
  "ScanDirectoryWithInfo rootDir fs =
     (case fs of
        None \<Rightarrow> Inl DirectoryDoesNotExist
      | Some root \<Rightarrow> walk rootDir rootDir root [])"


section \<open>The manifest manager (internal/sync)\<close>

record ManifestManager =
  manifestPath :: path

definition NewManifestManager :: "path \<Rightarrow> ManifestManager" where
  "NewManifestManager localPath =
     \<lparr>manifestPath = filepath_Join (filepath_Join localPath ''.s3sync'') ''manifest.json''\<rparr>"

text \<open>
  \<^verbatim>\<open>BuildLocalManifest\<close>: the scan result is stored in a fresh map under each record's
  \<^verbatim>\<open>RelativePath\<close>; \<open>now\<close> is the value of \<^verbatim>\<open>time.Now()\<close>.
\<close>

fun store_files :: "FileInfo list \<Rightarrow> go_map \<Rightarrow> go_map" where
  "store_files [] m = m"
| "store_files (file # rest) m = store_files rest (map_put (RelativePath file) file m)"

definition BuildLocalManifest :: "path \<Rightarrow> fs_node option \<Rightarrow> int \<Rightarrow> scan_error + Manifest" where
  "BuildLocalManifest localPath fs now =
     (case ScanDirectoryWithInfo localPath fs of
        Inl err \<Rightarrow> Inl err
      | Inr files \<Rightarrow>
          Inr \<lparr>LastSync = now, Files = store_files files make_map, Bucket = '''', Prefix = ''''\<rparr>)"

section \<open>Reference notions for the scan\<close>

text \<open>The paths of all non-directory entries at or below a path, in walk order.\<close>

fun file_paths :: "path \<Rightarrow> fs_node \<Rightarrow> path list"
and file_paths_names :: "path \<Rightarrow> (string \<times> fs_node) list \<Rightarrow> path list" where
  "file_paths path (FileEntry fileSize modTime digest) = [path]"
| "file_paths path (Directory entries) = file_paths_names path entries"
| "file_paths path Unreadable = []"
| "file_paths_names path [] = []"
| "file_paths_names path ((name, info) # rest) =
     file_paths (filepath_Join path name) info @ file_paths_names path rest"

text \<open>A name that begins with the marker character \<open>.\<close>, and a path whose leaf does.\<close>

definition dot_name :: "string \<Rightarrow> bool" where
  "dot_name name = (case name of [] \<Rightarrow> False | c # cs \<Rightarrow> c = CHR ''.'')"

definition hidden_leaf :: "path \<Rightarrow> bool" where
  "hidden_leaf path = dot_name (filepath_Base path)"

text \<open>The path of an entry relative to the root it lies under.\<close>

definition relative_to :: "path \<Rightarrow> path \<Rightarrow> string" where
  "relative_to rootDir path =
     (case drop (length rootDir) path of [] \<Rightarrow> ''.'' | c # cs \<Rightarrow> join_components (c # cs))"

text \<open>
  The trees the walk gets through without an error: no entry that fails to be read, no empty
  leaf name, and a digest for every file that is not skipped as hidden.
\<close>

fun scannable :: "path \<Rightarrow> fs_node \<Rightarrow> bool"
and scannable_names :: "path \<Rightarrow> (string \<times> fs_node) list \<Rightarrow> bool" where
  "scannable path (FileEntry fileSize modTime digest) =
     (filepath_Base path \<noteq> [] \<and> (hidden_leaf path \<or> digest \<noteq> None))"
| "scannable path (Directory entries) = scannable_names path entries"
| "scannable path Unreadable = False"
| "scannable_names path [] = True"
| "scannable_names path ((name, info) # rest) =
     (scannable (filepath_Join path name) info \<and> scannable_names path rest)"

section \<open>The sync configuration (internal/config)\<close>

text \<open>
  \<^verbatim>\<open>config.SyncConfig\<close> and the default value \<^verbatim>\<open>LoadConfig\<close> starts from. No function of
  the scan, the manifest manager or the engine takes a configuration.
\<close>

record SyncConfig =
  DefaultBucket :: string
  ExcludeFiles :: "string list"
  IncludeFiles :: "string list"
  MaxRetries :: int
  ChunkSize :: int

definition default_SyncConfig :: SyncConfig where
  "default_SyncConfig =
     \<lparr>DefaultBucket = '''', ExcludeFiles = [''.DS_Store'', ''Thumbs.db'', ''.git/*''],
      IncludeFiles = [], MaxRetries = 3, ChunkSize = 8 * 1024 * 1024\<rparr>"

section \<open>The manifest store: LoadManifest and SaveManifest (internal/sync)\<close>

text \<open>
  What the file system holds at the manifest location of one sync root: whether the
  directory \<^verbatim>\<open>filepath.Dir(manifestPath)\<close> exists, the bytes of the file at
  \<^verbatim>\<open>manifestPath\<close> (\<open>None\<close> when there is no such file), and whether the path can be read:
  \<open>readable\<close> is false when \<^verbatim>\<open>os.Stat\<close> of the path fails with an error other than
  "does not exist" (a component of the path is not a directory, a directory may not be
  searched) or \<^verbatim>\<open>os.ReadFile\<close> of the file fails.
\<close>

record manifest_disk =
  dir_exists :: bool
  content :: "string option"
  readable :: bool

datatype store_error = CreateDirFailed | MarshalFailed | WriteFailed | ReadFailed | ParseFailed

text \<open>
  Every file-system call can fail, and the process can stop, part of the way. The
  \<open>budget\<close> is the number of primitive steps (creating the directory, opening the file with
  truncation, writing one byte) that still take effect; \<open>None\<close> is no limit. A call that
  runs out of budget reports failure and leaves what the steps before did. Whether the
  process then returns the error or is killed makes no difference to the file system.

  \<^verbatim>\<open>fileutils.CreateDirIfNotExists\<close>: \<^verbatim>\<open>os.MkdirAll\<close> when \<^verbatim>\<open>os.Stat\<close> finds no directory.
\<close>

definition CreateDirIfNotExists ::
  "nat option \<Rightarrow> manifest_disk \<Rightarrow> bool \<times> manifest_disk \<times> nat option" where
  "CreateDirIfNotExists budget d =
     (if dir_exists d then (True, d, budget)
      else (case budget of
              None \<Rightarrow> (True, d\<lparr>dir_exists := True\<rparr>, None)
            | Some 0 \<Rightarrow> (False, d, Some 0)
            | Some (Suc n) \<Rightarrow> (True, d\<lparr>dir_exists := True\<rparr>, Some n)))"

text \<open>
  \<^verbatim>\<open>os.WriteFile(name, data, perm)\<close> of the Go library opens \<^verbatim>\<open>name\<close> with
  \<^verbatim>\<open>O_WRONLY|O_CREATE|O_TRUNC\<close>, writes \<^verbatim>\<open>data\<close> and closes the file: the file is emptied
  first and filled afterwards. It is not part of the repository; this is its documented
  behaviour.
\<close>

definition os_WriteFile :: "nat option \<Rightarrow> string \<Rightarrow> manifest_disk \<Rightarrow> bool \<times> manifest_disk" where
  "os_WriteFile budget data d =
     (case budget of
        None \<Rightarrow> (True, d\<lparr>content := Some data\<rparr>)
      | Some 0 \<Rightarrow> (False, d)
      | Some (Suc n) \<Rightarrow>
          (if n < length data then (False, d\<lparr>content := Some (take n data)\<rparr>)
           else (True, d\<lparr>content := Some data\<rparr>)))"

text \<open>
  \<^verbatim>\<open>SaveManifest\<close>: the directory is created if missing, \<^verbatim>\<open>LastSync\<close> is set to
  \<^verbatim>\<open>time.Now()\<close>, the manifest is marshalled and the bytes are written to \<^verbatim>\<open>manifestPath\<close>
  itself by \<^verbatim>\<open>os.WriteFile\<close>. \<^verbatim>\<open>json.MarshalIndent\<close> is the parameter \<open>marshal\<close>
  (\<open>None\<close> is its error).
\<close>

definition SaveManifest ::
  "(Manifest \<Rightarrow> string option) \<Rightarrow> int \<Rightarrow> nat option \<Rightarrow> manifest_disk \<Rightarrow> Manifest \<Rightarrow>
   store_error option \<times> manifest_disk" where
  "SaveManifest marshal now budget d manifest =
     (case CreateDirIfNotExists budget d of
        (False, d1, budget1) \<Rightarrow> (Some CreateDirFailed, d1)
      | (True, d1, budget1) \<Rightarrow>
          (case marshal (manifest\<lparr>LastSync := now\<rparr>) of
             None \<Rightarrow> (Some MarshalFailed, d1)
           | Some data \<Rightarrow>
               (case os_WriteFile budget1 data d1 of
                  (False, d2) \<Rightarrow> (Some WriteFailed, d2)
                | (True, d2) \<Rightarrow> (None, d2))))"

text \<open>
  \<^verbatim>\<open>LoadManifest\<close>. \<^verbatim>\<open>fileutils.FileExists\<close> is false only when \<^verbatim>\<open>os.Stat\<close> reports that the
  path does not exist; then the result is an empty manifest. When \<^verbatim>\<open>os.Stat\<close> fails in any
  other way, or \<^verbatim>\<open>os.ReadFile\<close> fails, the read error is returned. Otherwise the file is
  parsed and a nil \<^verbatim>\<open>Files\<close> map replaced by an empty one. \<^verbatim>\<open>json.Unmarshal\<close> is the
  parameter \<open>unmarshal\<close>.
\<close>

definition LoadManifest ::
  "(string \<Rightarrow> Manifest option) \<Rightarrow> manifest_disk \<Rightarrow> store_error + Manifest" where
  "LoadManifest unmarshal d =
     (if \<not> readable d then Inl ReadFailed
      else
        (case content d of
           None \<Rightarrow> Inr \<lparr>LastSync = 0, Files = make_map, Bucket = '''', Prefix = ''''\<rparr>
         | Some data \<Rightarrow>
             (case unmarshal data of
                None \<Rightarrow> Inl ParseFailed
              | Some manifest \<Rightarrow>
                  Inr (if Files manifest = None then manifest\<lparr>Files := make_map\<rparr>
                       else manifest))))"

section \<open>The S3 listing: ListObjects (internal/aws)\<close>

text \<open>
  One entry of \<^verbatim>\<open>ListObjectsV2Output.Contents\<close>; \<^verbatim>\<open>Key\<close> and \<^verbatim>\<open>ETag\<close> are pointers.
\<close>

record s3_object =
  Key :: "string option"
  ETag :: "string option"
  ObjectSize :: int
  LastModified :: int

text \<open>
  \<^verbatim>\<open>strings.HasSuffix(key, "/")\<close>, \<^verbatim>\<open>strings.Trim(etag, "\"")\<close> (the character \<open>0x22\<close> is
  the double quote) and \<^verbatim>\<open>strings.TrimPrefix\<close>.
\<close>

definition strings_HasSuffix_slash :: "string \<Rightarrow> bool" where
  "strings_HasSuffix_slash s = (s \<noteq> [] \<and> last s = CHR ''/'')"

definition strings_Trim_quote :: "string \<Rightarrow> string" where
  "strings_Trim_quote s =
     rev (dropWhile (\<lambda>c. c = CHR 0x22) (rev (dropWhile (\<lambda>c. c = CHR 0x22) s)))"

definition strings_TrimPrefix :: "string \<Rightarrow> string \<Rightarrow> string" where
  "strings_TrimPrefix s pre = (if take (length pre) s = pre then drop (length pre) s else s)"

text \<open>The inner loop over the contents of one page, appending to \<^verbatim>\<open>files\<close>.\<close>

fun process_objects :: "string \<Rightarrow> s3_object list \<Rightarrow> FileInfo list \<Rightarrow> FileInfo list" where
  "process_objects prefix [] files = files"
| "process_objects prefix (obj # rest) files =
     (case Key obj of
        None \<Rightarrow> process_objects prefix rest files
      | Some key \<Rightarrow>
          if strings_HasSuffix_slash key then process_objects prefix rest files
          else
            (let relativePath =
                   (if prefix \<noteq> '''' \<and> take (length prefix) key = prefix
                    then strings_TrimPrefix (strings_TrimPrefix key prefix) ''/''
                    else key);
                 etag = (case ETag obj of None \<Rightarrow> '''' | Some e \<Rightarrow> strings_Trim_quote e);
                 fileInfo = \<lparr>Path = key, Size = ObjectSize obj, ModTime = LastModified obj,
                             Checksum = etag, RelativePath = relativePath\<rparr>
             in process_objects prefix rest (files @ [fileInfo])))"

text \<open>
  The outer loop: one \<^verbatim>\<open>ListObjectsV2\<close> call per page until a page is not truncated. The
  argument lists what the successive calls return, \<open>None\<close> for a failed call.
\<close>

fun list_pages :: "string \<Rightarrow> s3_object list option list \<Rightarrow> FileInfo list \<Rightarrow> FileInfo list option" where
  "list_pages prefix [] files = Some files"
| "list_pages prefix (None # rest) files = None"
| "list_pages prefix (Some contents # rest) files =
     list_pages prefix rest (process_objects prefix contents files)"

definition ListObjects :: "string \<Rightarrow> s3_object list option list \<Rightarrow> FileInfo list option" where
  "ListObjects prefix pages = list_pages prefix pages []"

section \<open>The action executor: performPush and performPull (cmd/s3sync)\<close>

text \<open>The error returns of \<^verbatim>\<open>performPush\<close> and \<^verbatim>\<open>performPull\<close>.\<close>

datatype run_error =
    ClientError
  | BucketCheckError
  | BucketNotFound
  | LocalDirError
  | LoadManifestError store_error
  | ScanError scan_error
  | ListObjectsError
  | EnginePanic go_panic
  | TransferError string
  | SaveManifestError store_error

text \<open>
  What a run meets outside the program: whether \<^verbatim>\<open>aws.NewClient\<close> succeeds, the answer of
  \<^verbatim>\<open>BucketExists\<close> (\<open>None\<close> for an error), the tree at \<^verbatim>\<open>localPath\<close>, whether the local
  directory can be created, the manifest location, the JSON codec, the budget of the manifest
  write, the pages \<^verbatim>\<open>ListObjectsV2\<close> returns, which keys \<^verbatim>\<open>UploadFile\<close> or \<^verbatim>\<open>DownloadFile\<close>
  transfers without error, what a call of \<^verbatim>\<open>DownloadFile\<close> for a key does to the manifest
  location, and the value of \<^verbatim>\<open>time.Now()\<close>.

  \<^verbatim>\<open>DownloadFile\<close> creates the directories of \<^verbatim>\<open>filepath.Join(localPath, key)\<close> and the file
  itself, and copies the object into it; it may fail at any of these steps. For a key below
  \<^verbatim>\<open>.s3sync\<close> that is the manifest directory, and for a key that names
  \<^verbatim>\<open>.s3sync/manifest.json\<close> the manifest file. \<open>download_effect\<close> is that effect, of a call
  that succeeds or fails; for a key elsewhere it is the identity. \<^verbatim>\<open>UploadFile\<close> only reads
  the local file.
\<close>

record world =
  client_ok :: bool
  bucket_check :: "bool option"
  local_tree :: "fs_node option"
  local_mkdir_ok :: bool
  disk :: manifest_disk
  json_Marshal :: "Manifest \<Rightarrow> string option"
  json_Unmarshal :: "string \<Rightarrow> Manifest option"
  io_budget :: "nat option"
  bucket_pages :: "s3_object list option list"
  transfer_ok :: "string \<Rightarrow> bool"
  download_effect :: "string \<Rightarrow> manifest_disk \<Rightarrow> manifest_disk"
  clock :: int

text \<open>
  What a run did: the error it returned (\<open>None\<close> is nil), the action list it computed, the
  keys whose transfer completed, the manifest \<^verbatim>\<open>SaveManifest\<close> stored (\<open>None\<close> when it was
  not called or failed), and the manifest location afterwards.
\<close>

record run =
  result :: "run_error option"
  decided :: "SyncAction list"
  transferred :: "string list"
  saved :: "Manifest option"
  disk_after :: manifest_disk

definition stop :: "world \<Rightarrow> run_error option \<Rightarrow> run" where
  "stop w err =
     \<lparr>result = err, decided = [], transferred = [], saved = None, disk_after = disk w\<rparr>"

text \<open>
  The transfer loop of \<^verbatim>\<open>performPush\<close> (\<open>op\<close> is upload) and of \<^verbatim>\<open>performPull\<close> (\<open>op\<close> is
  download): actions of the other operations are passed over, the first failing transfer
  returns its error. \<open>effect\<close> is what one transfer call does to the manifest location.
\<close>

fun transfer_all ::
  "SyncOp \<Rightarrow> (string \<Rightarrow> bool) \<Rightarrow> (string \<Rightarrow> manifest_disk \<Rightarrow> manifest_disk) \<Rightarrow>
   SyncAction list \<Rightarrow> string list \<Rightarrow> manifest_disk \<Rightarrow>
   run_error option \<times> string list \<times> manifest_disk" where
  "transfer_all op ok effect [] sent d = (None, sent, d)"
| "transfer_all op ok effect (action # rest) sent d =
     (if Operation action = op then
        (if ok (ActionPath action)
         then transfer_all op ok effect rest (sent @ [ActionPath action])
                (effect (ActionPath action) d)
         else (Some (TransferError (ActionPath action)), sent, effect (ActionPath action) d))
      else transfer_all op ok effect rest sent d)"

definition count_ops :: "SyncOp \<Rightarrow> SyncAction list \<Rightarrow> nat" where
  "count_ops op actions = length (filter (\<lambda>action. Operation action = op) actions)"

text \<open>
  The part the two functions share after the action list is counted: the dry-run return,
  the return when nothing is to be transferred, the transfer loop, and \<^verbatim>\<open>SaveManifest\<close> on
  the manifest location as the transfers left it.
\<close>

definition finish_run ::
  "world \<Rightarrow> SyncOp \<Rightarrow> (string \<Rightarrow> manifest_disk \<Rightarrow> manifest_disk) \<Rightarrow> bool \<Rightarrow>
   SyncAction list \<Rightarrow> Manifest \<Rightarrow> run" where
  "finish_run w op effect dryRun actions manifest =
     (if dryRun then (stop w None)\<lparr>decided := actions\<rparr>
      else if count_ops op actions = 0 then (stop w None)\<lparr>decided := actions\<rparr>
      else
        (case transfer_all op (transfer_ok w) effect actions [] (disk w) of
           (Some err, sent, d) \<Rightarrow>
             \<lparr>result = Some err, decided = actions, transferred = sent, saved = None,
              disk_after = d\<rparr>
         | (None, sent, d) \<Rightarrow>
             (case SaveManifest (json_Marshal w) (clock w) (io_budget w) d manifest of
                (Some err, d') \<Rightarrow>
                  \<lparr>result = Some (SaveManifestError err), decided = actions,
                   transferred = sent, saved = None, disk_after = d'\<rparr>
              | (None, d') \<Rightarrow>
                  \<lparr>result = None, decided = actions, transferred = sent,
                   saved = Some (manifest\<lparr>LastSync := clock w\<rparr>), disk_after = d'\<rparr>)))"

definition performPush :: "path \<Rightarrow> string \<Rightarrow> bool \<Rightarrow> world \<Rightarrow> run" where
  "performPush localPath bucketName dryRun w =
     (if \<not> client_ok w then stop w (Some ClientError)
      else case bucket_check w of
        None \<Rightarrow> stop w (Some BucketCheckError)
      | Some False \<Rightarrow> stop w (Some BucketNotFound)
      | Some True \<Rightarrow>
     (case LoadManifest (json_Unmarshal w) (disk w) of
        Inl err \<Rightarrow> stop w (Some (LoadManifestError err))
      | Inr lastManifest \<Rightarrow>
     (case BuildLocalManifest localPath (local_tree w) (clock w) of
        Inl err \<Rightarrow> stop w (Some (ScanError err))
      | Inr built \<Rightarrow>
     (let localManifest = built\<lparr>Bucket := bucketName\<rparr> in
      case ListObjects '''' (bucket_pages w) of
        None \<Rightarrow> stop w (Some ListObjectsError)
      | Some remoteFiles \<Rightarrow>
     (let remoteManifest = \<lparr>LastSync = 0, Files = store_files remoteFiles make_map,
                             Bucket = bucketName, Prefix = ''''\<rparr> in
      case ComputeSyncActions (Some localManifest) (Some remoteManifest) (Some lastManifest) of
        Inl p \<Rightarrow> stop w (Some (EnginePanic p))
      | Inr actions \<Rightarrow>
          finish_run w SyncOpUpload (\<lambda>key d. d) dryRun actions localManifest)))))"

definition performPull :: "string \<Rightarrow> path \<Rightarrow> bool \<Rightarrow> world \<Rightarrow> run" where
  "performPull bucketName localPath dryRun w =
     (if \<not> client_ok w then stop w (Some ClientError)
      else case bucket_check w of
        None \<Rightarrow> stop w (Some BucketCheckError)
      | Some False \<Rightarrow> stop w (Some BucketNotFound)
      | Some True \<Rightarrow>
     (if local_tree w = None \<and> \<not> local_mkdir_ok w then stop w (Some LocalDirError)
      else
     (let tree = (case local_tree w of None \<Rightarrow> Some (Directory []) | Some t \<Rightarrow> Some t) in
      case LoadManifest (json_Unmarshal w) (disk w) of
        Inl err \<Rightarrow> stop w (Some (LoadManifestError err))
      | Inr lastManifest \<Rightarrow>
     (case BuildLocalManifest localPath tree (clock w) of
        Inl err \<Rightarrow> stop w (Some (ScanError err))
      | Inr localManifest \<Rightarrow>
     (case ListObjects '''' (bucket_pages w) of
        None \<Rightarrow> stop w (Some ListObjectsError)
      | Some remoteFiles \<Rightarrow>
     (let remoteManifest = \<lparr>LastSync = 0, Files = store_files remoteFiles make_map,
                             Bucket = bucketName, Prefix = ''''\<rparr> in
      case ComputeSyncActions (Some localManifest) (Some remoteManifest) (Some lastManifest) of
        Inl p \<Rightarrow> stop w (Some (EnginePanic p))
      | Inr actions \<Rightarrow>
          finish_run w SyncOpDownload (download_effect w) dryRun actions
            (remoteManifest\<lparr>Bucket := bucketName\<rparr>)))))))"

section \<open>Reference notions for a run\<close>

text \<open>The keys of the actions of one operation, in the order of the action list.\<close>

definition wanted_keys :: "SyncOp \<Rightarrow> SyncAction list \<Rightarrow> string list" where
  "wanted_keys op actions = map ActionPath (filter (\<lambda>action. Operation action = op) actions)"

text \<open>
  What a run whose preparation succeeded does with its action list and the manifest it
  means to save. A dry run, and a run with no action of its operation, returns at once:
  nothing is transferred, nothing saved. Otherwise the keys are transferred in order. At the
  first key whose transfer fails the run returns that error: the keys before it were
  transferred, no key after it is, and SaveManifest is not called. When every transfer
  completes, SaveManifest is called on the manifest location as the transfers left it, and
  the manifest counts as saved exactly when that call returns no error.
\<close>

definition run_follows ::
  "SyncOp \<Rightarrow> (string \<Rightarrow> manifest_disk \<Rightarrow> manifest_disk) \<Rightarrow> bool \<Rightarrow> world \<Rightarrow>
   SyncAction list \<Rightarrow> Manifest \<Rightarrow> run \<Rightarrow> bool" where
  "run_follows op effect dryRun w actions manifest r \<longleftrightarrow>
     decided r = actions \<and>
     (dryRun \<or> wanted_keys op actions = [] \<longrightarrow>
        result r = None \<and> transferred r = [] \<and> saved r = None \<and> disk_after r = disk w) \<and>
     (\<forall>before key after.
        \<not> dryRun \<and> wanted_keys op actions = before @ key # after \<and>
        (\<forall>k \<in> set before. transfer_ok w k) \<and> \<not> transfer_ok w key \<longrightarrow>
          result r = Some (TransferError key) \<and> transferred r = before \<and> saved r = None \<and>
          disk_after r = fold effect (before @ [key]) (disk w)) \<and>
     (\<not> dryRun \<and> wanted_keys op actions \<noteq> [] \<and>
      (\<forall>k \<in> set (wanted_keys op actions). transfer_ok w k) \<longrightarrow>
        transferred r = wanted_keys op actions \<and>
        (case SaveManifest (json_Marshal w) (clock w) (io_budget w)
                (fold effect (wanted_keys op actions) (disk w)) manifest of
           (None, d) \<Rightarrow>
             result r = None \<and> saved r = Some (manifest\<lparr>LastSync := clock w\<rparr>) \<and>
             disk_after r = d
         | (Some err, d) \<Rightarrow>
             result r = Some (SaveManifestError err) \<and> saved r = None \<and> disk_after r = d))"

text \<open>
  What holds of every run that saved a manifest: it was not a dry run, it returned no error,
  it had actions of its operation and transferred every one of them without a failure, and
  the manifest file holds the marshalled bytes of what was saved.
\<close>

definition saved_only_when :: "SyncOp \<Rightarrow> bool \<Rightarrow> world \<Rightarrow> run \<Rightarrow> bool" where
  "saved_only_when op dryRun w r \<longleftrightarrow>
     (\<forall>m. saved r = Some m \<longrightarrow>
        \<not> dryRun \<and> result r = None \<and> wanted_keys op (decided r) \<noteq> [] \<and>
        transferred r = wanted_keys op (decided r) \<and>
        (\<forall>k \<in> set (transferred r). transfer_ok w k) \<and>
        (\<exists>data. json_Marshal w m = Some data \<and> content (disk_after r) = Some data))"

text \<open>The remote inventory both functions build from the listing.\<close>

definition remote_inventory :: "string \<Rightarrow> FileInfo list \<Rightarrow> Manifest" where
  "remote_inventory bucketName remoteFiles =
     \<lparr>LastSync = 0, Files = store_files remoteFiles make_map, Bucket = bucketName,
      Prefix = ''''\<rparr>"

section \<open>Examples\<close>

text \<open>Three records of one path with different fingerprints and times, and manifests of them.\<close>

definition file_a1 :: FileInfo where
  "file_a1 = \<lparr>Path = ''/data/a.txt'', Size = 5, ModTime = 100, Checksum = ''fp1'',
              RelativePath = ''a.txt''\<rparr>"

definition file_a2 :: FileInfo where
  "file_a2 = \<lparr>Path = ''/data/a.txt'', Size = 7, ModTime = 300, Checksum = ''fp2'',
              RelativePath = ''a.txt''\<rparr>"

definition file_a3 :: FileInfo where
  "file_a3 = \<lparr>Path = ''a.txt'', Size = 9, ModTime = 200, Checksum = ''fp3'',
              RelativePath = ''a.txt''\<rparr>"

definition manifest_of :: "(string \<times> FileInfo) list \<Rightarrow> Manifest" where
  "manifest_of entries =
     \<lparr>LastSync = 0, Files = fold (\<lambda>(k, v). map_put k v) entries make_map,
      Bucket = ''bucket'', Prefix = ''''\<rparr>"

definition nil_files_manifest :: Manifest where
  "nil_files_manifest = \<lparr>LastSync = 0, Files = None, Bucket = '''', Prefix = ''''\<rparr>"

text \<open>
  A sync root with a hidden file, the manifest directory, a file named like a default
  exclusion pattern, and a file in a subdirectory.
\<close>

definition example_tree :: fs_node where
  "example_tree =
     Directory
       [(''.DS_Store'', FileEntry 1 10 (Some ''d5'')),
        (''.s3sync'', Directory [(''manifest.json'', FileEntry 2 20 (Some ''44''))]),
        (''Thumbs.db'', FileEntry 3 30 (Some ''9f'')),
        (''docs'', Directory [(''a.txt'', FileEntry 5 40 (Some ''2c''))])]"

text \<open>
  A stand-in codec for the examples: the bytes are the bucket name between braces, and
  anything else does not parse.
\<close>

definition toy_marshal :: "Manifest \<Rightarrow> string option" where
  "toy_marshal m = Some (''{'' @ Bucket m @ ''}'')"

definition toy_unmarshal :: "string \<Rightarrow> Manifest option" where
  "toy_unmarshal s =
     (case s of
        [] \<Rightarrow> None
      | c # rest \<Rightarrow>
          (if c = CHR ''{'' \<and> rest \<noteq> [] \<and> last rest = CHR ''}''
           then Some \<lparr>LastSync = 0, Files = None, Bucket = butlast rest, Prefix = ''''\<rparr>
           else None))"

text \<open>A manifest location that holds a manifest of an earlier run.\<close>

definition old_disk :: manifest_disk where
  "old_disk = \<lparr>dir_exists = True, content = Some ''{old-bucket}'', readable = True\<rparr>"

text \<open>
  A sync root with one file \<open>a.txt\<close> whose content is \<open>hello\<close>: its hex SHA-256 digest, and the
  hex MD5 digest S3 returns, in double quotes, as the ETag of the uploaded object. The first
  push meets an empty bucket and no manifest.
\<close>

definition sha256_hello :: string where
  "sha256_hello = ''2cf24dba5fb0a30e26e83b2ac5b9e29e1b161e5c1fa7425e73043362938b9824''"

definition md5_hello :: string where
  "md5_hello = ''5d41402abc4b2a76b9719d911017c592''"

definition hello_tree :: fs_node where
  "hello_tree = Directory [(''a.txt'', FileEntry 5 100 (Some sha256_hello))]"

definition hello_object :: s3_object where
  "hello_object = \<lparr>Key = Some ''a.txt'', ETag = Some (CHR 0x22 # md5_hello @ [CHR 0x22]),
                    ObjectSize = 5, LastModified = 150\<rparr>"

definition first_world :: world where
  "first_world =
     \<lparr>client_ok = True, bucket_check = Some True, local_tree = Some hello_tree,
      local_mkdir_ok = True,
      disk = \<lparr>dir_exists = False, content = None, readable = True\<rparr>,
      json_Marshal = toy_marshal, json_Unmarshal = toy_unmarshal, io_budget = None,
      bucket_pages = [Some []], transfer_ok = (\<lambda>key. True),
      download_effect = (\<lambda>key d. d), clock = 140\<rparr>"

text \<open>
  The same root with a second file \<open>b.txt\<close> whose content is \<open>world\<close>, and a network on which
  the upload of \<open>a.txt\<close> fails.
\<close>

definition sha256_world :: string where
  "sha256_world = ''486ea46224d1bb4fb680f34f7c9ad96a8f24ec88be73ea8e5a6c65260e9cb8a7''"

definition failing_world :: world where
  "failing_world =
     first_world
       \<lparr>local_tree := Some (Directory [(''a.txt'', FileEntry 5 100 (Some sha256_hello)),
                                       (''b.txt'', FileEntry 5 110 (Some sha256_world))]),
        transfer_ok := (\<lambda>key. key \<noteq> ''a.txt'')\<rparr>"

text \<open>A first pull into a directory that does not exist yet, from a bucket holding the object.\<close>

definition pull_world :: world where
  "pull_world = first_world\<lparr>local_tree := None, bucket_pages := [Some [hello_object]]\<rparr>"

text \<open>The records of \<open>a.txt\<close> in the local scan and in the listing, and the two inventories.\<close>

definition hello_local_file :: FileInfo where
  "hello_local_file = \<lparr>Path = ''data/a.txt'', Size = 5, ModTime = 100, Checksum = sha256_hello,
                        RelativePath = ''a.txt''\<rparr>"

definition hello_remote_file :: FileInfo where
  "hello_remote_file = \<lparr>Path = ''a.txt'', Size = 5, ModTime = 150, Checksum = md5_hello,
                         RelativePath = ''a.txt''\<rparr>"

definition hello_local :: Manifest where
  "hello_local = \<lparr>LastSync = 140, Files = store_files [hello_local_file] make_map,
                   Bucket = ''bucket'', Prefix = ''''\<rparr>"

definition hello_remote :: Manifest where
  "hello_remote = \<lparr>LastSync = 0, Files = store_files [hello_remote_file] make_map,
                    Bucket = ''bucket'', Prefix = ''''\<rparr>"

text \<open>
  A later run of a sync root whose \<^verbatim>\<open>.s3sync\<close> is a symbolic link to a directory elsewhere.
  The walk sees the link as a hidden entry that is not a directory and passes over it, while
  the manifest path leads through the link to the manifest file. The file holds the bytes
  the first push wrote, which parse to the inventory it saved; \<open>a.txt\<close> has been deleted
  locally, and the bucket still holds the object.
\<close>

definition known_bytes :: string where
  "known_bytes = ''{bucket}''"

definition linked_tree :: fs_node where
  "linked_tree = Directory [(''.s3sync'', FileEntry 14 90 None)]"

definition deleted_locally_world :: world where
  "deleted_locally_world =
     \<lparr>client_ok = True, bucket_check = Some True, local_tree = Some linked_tree,
      local_mkdir_ok = True,
      disk = \<lparr>dir_exists = True, content = Some known_bytes, readable = True\<rparr>,
      json_Marshal = toy_marshal,
      json_Unmarshal = (\<lambda>data. if data = known_bytes then Some hello_local else None),
      io_budget = None, bucket_pages = [Some [hello_object]], transfer_ok = (\<lambda>key. True),
      download_effect = (\<lambda>key d. d), clock = 200\<rparr>"

section \<open>Facts about the engine\<close>

lemma map_get_range: "map_get m = map_of (map_range m)"
  by (cases m) (simp_all add: map_get_def map_range_def fun_eq_iff DAList.lookup.rep_eq)

lemma map_range_distinct: "distinct (map fst (map_range m))"
  by (cases m) (simp_all add: map_range_def)

lemma map_keys_dom: "map_keys m = dom (map_get m)"
  by (simp add: map_keys_def map_get_range dom_map_of_conv_image_fst)

lemma check_local_file_path [simp]:
  "ActionPath (check_local_file rf kf p lf) = p"
  by (simp add: check_local_file_def Let_def split: option.splits)

lemma check_local_files_append:
  "check_local_files rf kf es acc = acc @ check_local_files rf kf es []"
proof (induction es arbitrary: acc)
  case Nil
  show ?case by simp
next
  case (Cons e es)
  obtain p lf where e: "e = (p, lf)" by (cases e)
  show ?case
    using Cons.IH [of "acc @ [check_local_file rf kf p lf]"]
          Cons.IH [of "[check_local_file rf kf p lf]"]
    by (simp add: e)
qed

lemma check_remote_files_append:
  "check_remote_files lf kf es acc = acc @ check_remote_files lf kf es []"
proof (induction es arbitrary: acc)
  case Nil
  show ?case by simp
next
  case (Cons e es)
  obtain p rf where e: "e = (p, rf)" by (cases e)
  show ?case
    using Cons.IH [of "acc @ check_remote_file lf kf p rf"]
          Cons.IH [of "check_remote_file lf kf p rf"]
    by (simp add: e)
qed

lemma check_local_files_map:
  "check_local_files rf kf es [] = map (\<lambda>(p, lf). check_local_file rf kf p lf) es"
proof (induction es)
  case Nil
  show ?case by simp
next
  case (Cons e es)
  obtain p lf where e: "e = (p, lf)" by (cases e)
  show ?case
    using Cons.IH check_local_files_append [of rf kf es "[check_local_file rf kf p lf]"]
    by (simp add: e)
qed

lemma check_remote_files_concat:
  "check_remote_files lf kf es [] = concat (map (\<lambda>(p, rf). check_remote_file lf kf p rf) es)"
proof (induction es)
  case Nil
  show ?case by simp
next
  case (Cons e es)
  obtain p rf where e: "e = (p, rf)" by (cases e)
  show ?case
    using Cons.IH check_remote_files_append [of lf kf es "check_remote_file lf kf p rf"]
    by (simp add: e)
qed

lemma check_remote_file_path:
  "\<forall>a \<in> set (check_remote_file lf kf p rf). ActionPath a = p"
  by (simp add: check_remote_file_def split: option.splits)

lemma filter_map_distinct:
  assumes "distinct (map fst es)" and "\<And>k v. ActionPath (f k v) = k"
  shows "filter (\<lambda>a. ActionPath a = p) (map (\<lambda>(k, v). f k v) es) =
         (case map_of es p of None \<Rightarrow> [] | Some v \<Rightarrow> [f p v])"
  using assms(1)
proof (induction es)
  case Nil
  show ?case by simp
next
  case (Cons e es)
  obtain k v where e: "e = (k, v)" by (cases e)
  from Cons.prems have d: "distinct (map fst es)" and nk: "k \<notin> fst ` set es"
    by (simp_all add: e)
  show ?case
  proof (cases "k = p")
    case True
    with nk have "map_of es p = None" by (simp add: map_of_eq_None_iff)
    with Cons.IH [OF d] True show ?thesis by (simp add: e assms(2))
  next
    case False
    with Cons.IH [OF d] show ?thesis by (simp add: e assms(2))
  qed
qed

lemma filter_concat_distinct:
  assumes "distinct (map fst es)" and "\<And>k v. \<forall>a \<in> set (g k v). ActionPath a = k"
  shows "filter (\<lambda>a. ActionPath a = p) (concat (map (\<lambda>(k, v). g k v) es)) =
         (case map_of es p of None \<Rightarrow> [] | Some v \<Rightarrow> g p v)"
  using assms(1)
proof (induction es)
  case Nil
  show ?case by simp
next
  case (Cons e es)
  obtain k v where e: "e = (k, v)" by (cases e)
  from Cons.prems have d: "distinct (map fst es)" and nk: "k \<notin> fst ` set es"
    by (simp_all add: e)
  have all: "filter (\<lambda>a. ActionPath a = k) (g k v) = g k v"
    using assms(2) [of k v] by (simp add: filter_id_conv)
  show ?case
  proof (cases "k = p")
    case True
    with nk have "map_of es p = None" by (simp add: map_of_eq_None_iff)
    with Cons.IH [OF d] True all show ?thesis by (simp add: e)
  next
    case False
    have "filter (\<lambda>a. ActionPath a = p) (g k v) = []"
      using assms(2) [of k v] False by (auto simp: filter_empty_conv)
    with Cons.IH [OF d] False show ?thesis by (simp add: e)
  qed
qed

lemma ComputeSyncActions_non_nil:
  "ComputeSyncActions (Some l) (Some r) (Some k) =
     Inr (map (\<lambda>(p, lf). check_local_file (Files r) (Files k) p lf) (map_range (Files l)) @
          concat (map (\<lambda>(p, rf). check_remote_file (Files l) (Files k) p rf) (map_range (Files r))))"
  using check_remote_files_append [of "Files l" "Files k" "map_range (Files r)"
          "check_local_files (Files r) (Files k) (map_range (Files l)) []"]
  by (simp add: ComputeSyncActions_def Let_def check_local_files_map check_remote_files_concat)

lemma actions_for_ComputeSyncActions:
  "\<exists>actions. ComputeSyncActions (Some l) (Some r) (Some k) = Inr actions \<and>
     actions_for p actions =
       (case map_get (Files l) p of
          Some lf \<Rightarrow> [check_local_file (Files r) (Files k) p lf]
        | None \<Rightarrow> (case map_get (Files r) p of
                     None \<Rightarrow> []
                   | Some rf \<Rightarrow> check_remote_file (Files l) (Files k) p rf))"
proof -
  have loc: "filter (\<lambda>a. ActionPath a = p)
               (map (\<lambda>(p, lf). check_local_file (Files r) (Files k) p lf) (map_range (Files l))) =
             (case map_get (Files l) p of None \<Rightarrow> []
              | Some lf \<Rightarrow> [check_local_file (Files r) (Files k) p lf])"
    by (simp add: filter_map_distinct map_range_distinct map_get_range)
  have rem: "filter (\<lambda>a. ActionPath a = p)
               (concat (map (\<lambda>(p, rf). check_remote_file (Files l) (Files k) p rf) (map_range (Files r)))) =
             (case map_get (Files r) p of None \<Rightarrow> []
              | Some rf \<Rightarrow> check_remote_file (Files l) (Files k) p rf)"
    using filter_concat_distinct [where g = "check_remote_file (Files l) (Files k)"
            and es = "map_range (Files r)" and p = p]
    by (simp add: check_remote_file_path map_get_range map_range_distinct)
  have no: "\<And>lf rf. map_get (Files l) p = Some lf \<Longrightarrow> check_remote_file (Files l) (Files k) p rf = []"
    by (simp add: check_remote_file_def)
  show ?thesis
    unfolding ComputeSyncActions_non_nil actions_for_def
    by (auto simp: loc rem no split: option.splits)
qed

lemma action_paths:
  "\<exists>actions. ComputeSyncActions (Some l) (Some r) (Some k) = Inr actions \<and>
     map ActionPath actions =
       map fst (map_range (Files l)) @
       map fst (filter (\<lambda>(p, rf). map_get (Files l) p = None) (map_range (Files r)))"
proof -
  have a: "map ActionPath (map (\<lambda>(p, lf). check_local_file (Files r) (Files k) p lf) es) = map fst es" for es
    by (induction es) (auto simp: case_prod_beta)
  have b: "map ActionPath (concat (map (\<lambda>(p, rf). check_remote_file (Files l) (Files k) p rf) es)) =
           map fst (filter (\<lambda>(p, rf). map_get (Files l) p = None) es)" for es
    by (induction es) (auto simp: check_remote_file_def case_prod_beta split: option.splits)
  show ?thesis unfolding ComputeSyncActions_non_nil by (simp only: map_append a b sum.inject simp_thms ex_simps)
qed


lemmas example_simps =
  manifest_of_def nil_files_manifest_def map_put_def make_map_def map_get_def map_range_def
  map_keys_def DAList.update.rep_eq DAList.empty.rep_eq DAList.lookup.rep_eq
  file_a1_def file_a2_def file_a3_def

section \<open>C1: one decision per path\<close>

text \<open>
  C1 as stated fails: a path that only the last-known inventory holds is decided by neither
  loop. With empty local and remote inventories and \<open>a.txt\<close> in the last-known one, the
  action list is empty.
\<close>

theorem ComputeSyncActions_last_known_only_path_undecided:
  "ComputeSyncActions (Some (manifest_of [])) (Some (manifest_of []))
       (Some (manifest_of [(''a.txt'', file_a1)])) = Inr [] \<and>
   ''a.txt'' \<in> map_keys (Files (manifest_of [(''a.txt'', file_a1)]))"
  by (simp add: ComputeSyncActions_def example_simps)

text \<open>
  C1, amended. For every triple of non-nil manifests, ComputeSyncActions returns an action
  list in which no path is decided twice, and the decided paths are exactly the paths of the
  local and the remote inventory.
\<close>

theorem ComputeSyncActions_one_action_per_path:
  "\<exists>actions. ComputeSyncActions (Some l) (Some r) (Some k) = Inr actions \<and>
     distinct (map ActionPath actions) \<and>
     set (map ActionPath actions) = map_keys (Files l) \<union> map_keys (Files r)"
proof -
  obtain actions where
    res: "ComputeSyncActions (Some l) (Some r) (Some k) = Inr actions" and
    paths: "map ActionPath actions =
              map fst (map_range (Files l)) @
              map fst (filter (\<lambda>(p, rf). map_get (Files l) p = None) (map_range (Files r)))"
    using action_paths [of l r k] by blast
  have d1: "distinct (map fst (map_range (Files l)))"
    by (rule map_range_distinct)
  have d2: "distinct (map fst (filter (\<lambda>(p, rf). map_get (Files l) p = None) (map_range (Files r))))"
    by (rule distinct_map_filter) (rule map_range_distinct)
  have disj: "set (map fst (map_range (Files l))) \<inter>
              set (map fst (filter (\<lambda>(p, rf). map_get (Files l) p = None) (map_range (Files r)))) = {}"
    by (force simp: map_get_range map_of_eq_None_iff)
  have cover: "set (map fst (map_range (Files l))) \<union>
               set (map fst (filter (\<lambda>(p, rf). map_get (Files l) p = None) (map_range (Files r)))) =
               map_keys (Files l) \<union> map_keys (Files r)"
    by (force simp: map_keys_def map_get_range map_of_eq_None_iff)
  from d1 d2 disj have "distinct (map ActionPath actions)"
    unfolding paths by (simp only: distinct_append simp_thms)
  moreover from cover have "set (map ActionPath actions) = map_keys (Files l) \<union> map_keys (Files r)"
    unfolding paths by (simp only: set_append)
  ultimately show ?thesis using res by blast
qed

theorem ComputeSyncActions_one_action_per_path_witness:
  "\<exists>actions. ComputeSyncActions (Some (manifest_of [(''a.txt'', file_a2)]))
       (Some (manifest_of [(''a.txt'', file_a3), (''b.txt'', file_a1)]))
       (Some (manifest_of [(''c.txt'', file_a1)])) = Inr actions \<and>
     distinct (map ActionPath actions) \<and>
     set (map ActionPath actions) = {''a.txt'', ''b.txt''}"
  using ComputeSyncActions_one_action_per_path
    [of "manifest_of [(''a.txt'', file_a2)]"
        "manifest_of [(''a.txt'', file_a3), (''b.txt'', file_a1)]"
        "manifest_of [(''c.txt'', file_a1)]"]
  by (simp add: example_simps insert_commute)


section \<open>C2: newer wins\<close>

text \<open>
  C2. For a path in both the local and the remote inventory with unequal fingerprints, where
  both fingerprints differ from the last-known one or the path is absent from the last-known
  inventory, the single action for the path is an upload of the local record when the local
  modification time is strictly later, and a download of the remote record when the remote
  one is strictly later.
\<close>

theorem ComputeSyncActions_newer_wins:
  assumes "map_get (Files l) p = Some lf"
      and "map_get (Files r) p = Some rf"
      and "Checksum lf \<noteq> Checksum rf"
      and "case map_get (Files k) p of
             None \<Rightarrow> True
           | Some kf \<Rightarrow> Checksum lf \<noteq> Checksum kf \<and> Checksum rf \<noteq> Checksum kf"
  shows "\<exists>actions a. ComputeSyncActions (Some l) (Some r) (Some k) = Inr actions \<and>
           actions_for p actions = [a] \<and>
           (ModTime rf < ModTime lf \<longrightarrow> Operation a = SyncOpUpload \<and> File a = lf) \<and>
           (ModTime lf < ModTime rf \<longrightarrow> Operation a = SyncOpDownload \<and> File a = rf)"
proof -
  obtain actions where
    res: "ComputeSyncActions (Some l) (Some r) (Some k) = Inr actions" and
    for_p: "actions_for p actions = [check_local_file (Files r) (Files k) p lf]"
    using actions_for_ComputeSyncActions [of l r k p] assms(1) by auto
  have up: "ModTime rf < ModTime lf \<longrightarrow>
              Operation (check_local_file (Files r) (Files k) p lf) = SyncOpUpload \<and>
              File (check_local_file (Files r) (Files k) p lf) = lf"
    using assms(2,3,4) by (simp add: check_local_file_def After_def Let_def split: option.splits)
  have down: "ModTime lf < ModTime rf \<longrightarrow>
              Operation (check_local_file (Files r) (Files k) p lf) = SyncOpDownload \<and>
              File (check_local_file (Files r) (Files k) p lf) = rf"
    using assms(2,3,4) by (simp add: check_local_file_def After_def Let_def split: option.splits)
  from res for_p up down show ?thesis by blast
qed

theorem ComputeSyncActions_newer_wins_witness:
  "(\<exists>actions a. ComputeSyncActions (Some (manifest_of [(''a.txt'', file_a2)]))
        (Some (manifest_of [(''a.txt'', file_a3)]))
        (Some (manifest_of [(''a.txt'', file_a1)])) = Inr actions \<and>
      actions_for ''a.txt'' actions = [a] \<and> Operation a = SyncOpUpload \<and> File a = file_a2) \<and>
   (\<exists>actions a. ComputeSyncActions (Some (manifest_of [(''a.txt'', file_a3)]))
        (Some (manifest_of [(''a.txt'', file_a2)]))
        (Some (manifest_of [])) = Inr actions \<and>
      actions_for ''a.txt'' actions = [a] \<and> Operation a = SyncOpDownload \<and> File a = file_a2)"
  using ComputeSyncActions_newer_wins
    [of "manifest_of [(''a.txt'', file_a2)]" "''a.txt''" file_a2
        "manifest_of [(''a.txt'', file_a3)]" file_a3 "manifest_of [(''a.txt'', file_a1)]"]
    ComputeSyncActions_newer_wins
    [of "manifest_of [(''a.txt'', file_a3)]" "''a.txt''" file_a3
        "manifest_of [(''a.txt'', file_a2)]" file_a2 "manifest_of []"]
  by (simp add: example_simps)

section \<open>C5: a local deletion is respected\<close>

text \<open>
  C5. For a path in the last-known and the remote inventory but not in the local one, the
  single action for the path is a skip with reason "deleted locally", whatever the
  fingerprints and timestamps.
\<close>

theorem ComputeSyncActions_deleted_locally_skips:
  assumes "map_get (Files l) p = None"
      and "map_get (Files r) p = Some rf"
      and "map_get (Files k) p = Some kf"
  shows "\<exists>actions. ComputeSyncActions (Some l) (Some r) (Some k) = Inr actions \<and>
           actions_for p actions =
             [\<lparr>Operation = SyncOpSkip, File = rf, ActionPath = p, Reason = ''deleted locally''\<rparr>]"
  using actions_for_ComputeSyncActions [of l r k p] assms
  by (auto simp: check_remote_file_def)

theorem ComputeSyncActions_deleted_locally_skips_witness:
  "\<exists>actions. ComputeSyncActions (Some (manifest_of []))
        (Some (manifest_of [(''a.txt'', file_a3)]))
        (Some (manifest_of [(''a.txt'', file_a1)])) = Inr actions \<and>
     actions_for ''a.txt'' actions =
       [\<lparr>Operation = SyncOpSkip, File = file_a3, ActionPath = ''a.txt'',
         Reason = ''deleted locally''\<rparr>]"
  using ComputeSyncActions_deleted_locally_skips
    [of "manifest_of []" "''a.txt''" "manifest_of [(''a.txt'', file_a3)]" file_a3
        "manifest_of [(''a.txt'', file_a1)]" file_a1]
  by (simp add: example_simps)

section \<open>C6: a remote deletion is resurrected\<close>

text \<open>
  C6. For a path in the last-known and the local inventory but not in the remote one, the
  single action for the path is an upload with reason "deleted remotely, exists locally";
  no action of the list is a delete.
\<close>

theorem ComputeSyncActions_deleted_remotely_uploads:
  assumes "map_get (Files l) p = Some lf"
      and "map_get (Files r) p = None"
      and "map_get (Files k) p = Some kf"
  shows "\<exists>actions. ComputeSyncActions (Some l) (Some r) (Some k) = Inr actions \<and>
           actions_for p actions =
             [\<lparr>Operation = SyncOpUpload, File = lf, ActionPath = p,
               Reason = ''deleted remotely, exists locally''\<rparr>] \<and>
           SyncOpDelete \<notin> Operation ` set actions"
proof -
  obtain actions where
    res: "ComputeSyncActions (Some l) (Some r) (Some k) = Inr actions" and
    for_p: "actions_for p actions = [check_local_file (Files r) (Files k) p lf]"
    using actions_for_ComputeSyncActions [of l r k p] assms(1) by auto
  have act: "check_local_file (Files r) (Files k) p lf =
               \<lparr>Operation = SyncOpUpload, File = lf, ActionPath = p,
                Reason = ''deleted remotely, exists locally''\<rparr>"
    using assms(2,3) by (simp add: check_local_file_def)
  have "SyncOpDelete \<notin> Operation ` set actions"
    using res unfolding ComputeSyncActions_non_nil
    by (auto simp: check_local_file_def check_remote_file_def Let_def
             split: option.splits if_splits)
  with res for_p act show ?thesis by simp
qed

theorem ComputeSyncActions_deleted_remotely_uploads_witness:
  "\<exists>actions. ComputeSyncActions (Some (manifest_of [(''a.txt'', file_a2)]))
        (Some (manifest_of []))
        (Some (manifest_of [(''a.txt'', file_a1)])) = Inr actions \<and>
     actions_for ''a.txt'' actions =
       [\<lparr>Operation = SyncOpUpload, File = file_a2, ActionPath = ''a.txt'',
         Reason = ''deleted remotely, exists locally''\<rparr>] \<and>
     SyncOpDelete \<notin> Operation ` set actions"
  using ComputeSyncActions_deleted_remotely_uploads
    [of "manifest_of [(''a.txt'', file_a2)]" "''a.txt''" file_a2 "manifest_of []"
        "manifest_of [(''a.txt'', file_a1)]" file_a1]
  by (simp add: example_simps)

section \<open>C4: nil inventories\<close>

text \<open>
  C4 as stated fails: a nil \<^verbatim>\<open>*Manifest\<close> argument is dereferenced and the call panics.
\<close>

theorem ComputeSyncActions_nil_manifest_panics:
  "ComputeSyncActions None (Some (manifest_of [])) (Some (manifest_of [])) =
     Inl NilPointerDereference"
  by (simp add: ComputeSyncActions_def)

lemma nil_as_empty_get: "map_get (Files (nil_as_empty m)) = map_get (Files m)"
  by (cases "Files m") (simp_all add: nil_as_empty_def map_get_def make_map_def fun_eq_iff)

lemma nil_as_empty_range: "map_range (Files (nil_as_empty m)) = map_range (Files m)"
  by (cases "Files m") (simp_all add: nil_as_empty_def map_range_def make_map_def DAList.empty.rep_eq)

lemma nil_as_empty_local:
  "check_local_file (Files (nil_as_empty r)) (Files (nil_as_empty k)) =
   check_local_file (Files r) (Files k)"
  by (simp add: fun_eq_iff check_local_file_def nil_as_empty_get cong: option.case_cong if_cong)

lemma nil_as_empty_remote:
  "check_remote_file (Files (nil_as_empty l)) (Files (nil_as_empty k)) =
   check_remote_file (Files l) (Files k)"
  by (simp add: fun_eq_iff check_remote_file_def nil_as_empty_get cong: option.case_cong)

text \<open>
  C4, amended. ComputeSyncActions returns an action list exactly when its three manifest
  pointers are non-nil, and a nil \<^verbatim>\<open>Files\<close> map in any of them gives the result an empty
  \<^verbatim>\<open>Files\<close> map gives.
\<close>

theorem ComputeSyncActions_total_on_non_nil:
  "((\<exists>actions. ComputeSyncActions lp rp kp = Inr actions) \<longleftrightarrow>
      lp \<noteq> None \<and> rp \<noteq> None \<and> kp \<noteq> None) \<and>
   ComputeSyncActions (Some l) (Some r) (Some k) =
     ComputeSyncActions (Some (nil_as_empty l)) (Some (nil_as_empty r)) (Some (nil_as_empty k))"
proof
  show "(\<exists>actions. ComputeSyncActions lp rp kp = Inr actions) \<longleftrightarrow>
          lp \<noteq> None \<and> rp \<noteq> None \<and> kp \<noteq> None"
    by (cases lp; cases rp; cases kp) (simp_all add: ComputeSyncActions_def Let_def)
  show "ComputeSyncActions (Some l) (Some r) (Some k) =
     ComputeSyncActions (Some (nil_as_empty l)) (Some (nil_as_empty r)) (Some (nil_as_empty k))"
    unfolding ComputeSyncActions_non_nil
    by (simp only: nil_as_empty_local nil_as_empty_remote nil_as_empty_range)
qed

theorem ComputeSyncActions_total_on_non_nil_witness:
  "ComputeSyncActions (Some nil_files_manifest) (Some (manifest_of [(''a.txt'', file_a3)]))
       (Some nil_files_manifest) =
     Inr [\<lparr>Operation = SyncOpDownload, File = file_a3, ActionPath = ''a.txt'',
           Reason = ''new remote file''\<rparr>] \<and>
   ComputeSyncActions (Some (nil_as_empty nil_files_manifest))
       (Some (manifest_of [(''a.txt'', file_a3)])) (Some (nil_as_empty nil_files_manifest)) =
     Inr [\<lparr>Operation = SyncOpDownload, File = file_a3, ActionPath = ''a.txt'',
           Reason = ''new remote file''\<rparr>]"
  using ComputeSyncActions_total_on_non_nil
    [of "Some nil_files_manifest" "Some (manifest_of [(''a.txt'', file_a3)])"
        "Some nil_files_manifest" nil_files_manifest "manifest_of [(''a.txt'', file_a3)]"
        nil_files_manifest]
  by (simp add: ComputeSyncActions_def check_remote_file_def nil_as_empty_def example_simps)


section \<open>Facts about the scan\<close>

lemma filepath_Rel_under:
  "take (length rootDir) path = rootDir \<Longrightarrow> filepath_Rel rootDir path = Some (relative_to rootDir path)"
  by (simp add: filepath_Rel_def relative_to_def split: list.splits)

lemma take_Join:
  "take (length rootDir) path = rootDir \<Longrightarrow> take (length rootDir) (filepath_Join path name) = rootDir"
  by (metis append_eq_conv_conj append_take_drop_id filepath_Join_def append.assoc)

lemma walk_paths:
  "walk rootDir path info acc = Inr files \<Longrightarrow> take (length rootDir) path = rootDir \<Longrightarrow>
     map RelativePath files =
       map RelativePath acc @
       map (relative_to rootDir) (filter (\<lambda>p. \<not> hidden_leaf p) (file_paths path info))"
  "walk_names rootDir path entries acc = Inr files \<Longrightarrow> take (length rootDir) path = rootDir \<Longrightarrow>
     map RelativePath files =
       map RelativePath acc @
       map (relative_to rootDir) (filter (\<lambda>p. \<not> hidden_leaf p) (file_paths_names path entries))"
proof (induction rootDir path info acc and rootDir path entries acc
       arbitrary: files and files rule: walk_walk_names.induct)
  case (1 rootDir path entries acc)
  then show ?case by (simp add: walkFn_def)
next
  case (2 rootDir path fileSize modTime digest acc)
  then show ?case
    by (auto simp: walkFn_def hidden_leaf_def dot_name_def filepath_Rel_under split: list.splits if_splits option.splits)
next
  case (3 rootDir path acc)
  then show ?case by (simp add: walkFn_def)
next
  case (4 rootDir path acc)
  then show ?case by simp
next
  case (5 rootDir path name info rest acc)
  from "5.prems"(1) obtain mid where
    w: "walk rootDir (filepath_Join path name) info acc = Inr mid" and
    r: "walk_names rootDir path rest mid = Inr files"
    by (auto split: sum.splits)
  have t: "take (length rootDir) (filepath_Join path name) = rootDir"
    using "5.prems"(2) by (rule take_Join)
  from "5.IH"(1) [OF w t] "5.IH"(2) [OF w r "5.prems"(2)]
  show ?case by simp
qed

lemma walk_returns:
  "take (length rootDir) path = rootDir \<Longrightarrow>
     (\<exists>files. walk rootDir path info acc = Inr files) = scannable path info"
  "take (length rootDir) path = rootDir \<Longrightarrow>
     (\<exists>files. walk_names rootDir path entries acc = Inr files) = scannable_names path entries"
proof (induction rootDir path info acc and rootDir path entries acc
       rule: walk_walk_names.induct)
  case (1 rootDir path entries acc)
  then show ?case by (simp add: walkFn_def)
next
  case (2 rootDir path fileSize modTime digest acc)
  then show ?case
    by (auto simp: walkFn_def hidden_leaf_def dot_name_def filepath_Rel_under split: list.splits if_splits option.splits)
next
  case (3 rootDir path acc)
  then show ?case by (simp add: walkFn_def)
next
  case (4 rootDir path acc)
  then show ?case by simp
next
  case (5 rootDir path name info rest acc)
  have t: "take (length rootDir) (filepath_Join path name) = rootDir"
    using "5.prems" by (rule take_Join)
  show ?case
  proof (cases "walk rootDir (filepath_Join path name) info acc")
    case (Inl e)
    with "5.IH"(1) [OF t] show ?thesis by auto
  next
    case (Inr mid)
    with "5.IH"(1) [OF t] "5.IH"(2) [OF Inr "5.prems"] show ?thesis by auto
  qed
qed


lemmas scan_simps =
  ScanDirectoryWithInfo_def walkFn_def filepath_Join_def filepath_Base_def filepath_Rel_def
  hidden_leaf_def dot_name_def relative_to_def example_tree_def

section \<open>C9: what the local inventory covers\<close>

text \<open>
  C9 as stated fails: the scan applies no exclusion pattern. \<open>Thumbs.db\<close> is one of the
  default \<^verbatim>\<open>ExcludeFiles\<close> patterns, and a file of that name is in the inventory.
\<close>

theorem ScanDirectoryWithInfo_ignores_exclude_files:
  "''Thumbs.db'' \<in> set (ExcludeFiles default_SyncConfig) \<and>
   ScanDirectoryWithInfo [''data''] (Some (Directory [(''Thumbs.db'', FileEntry 3 30 (Some ''9f''))])) =
     Inr [\<lparr>Path = ''data/Thumbs.db'', Size = 3, ModTime = 30, Checksum = ''9f'',
           RelativePath = ''Thumbs.db''\<rparr>]"
  by (simp add: default_SyncConfig_def scan_simps)

text \<open>
  C9, amended. When ScanDirectoryWithInfo returns an inventory, its relative paths are those
  of every non-directory entry at or below the root whose leaf name does not begin with
  \<open>.\<close>, and of no other; no exclusion pattern is applied. It returns one exactly when the
  walk meets no unreadable entry.
\<close>

theorem ScanDirectoryWithInfo_covers_all_but_dot_files:
  "(\<forall>files. ScanDirectoryWithInfo rootDir (Some root) = Inr files \<longrightarrow>
      map RelativePath files =
        map (relative_to rootDir) (filter (\<lambda>p. \<not> hidden_leaf p) (file_paths rootDir root))) \<and>
   ((\<exists>files. ScanDirectoryWithInfo rootDir (Some root) = Inr files) \<longleftrightarrow>
      scannable rootDir root)"
  using walk_paths(1) [of rootDir rootDir root "[]"] walk_returns(1) [of rootDir rootDir root "[]"]
  by (simp add: ScanDirectoryWithInfo_def)

theorem ScanDirectoryWithInfo_covers_all_but_dot_files_witness:
  "\<exists>files. ScanDirectoryWithInfo [''data''] (Some example_tree) = Inr files \<and>
     map RelativePath files = [''.s3sync/manifest.json'', ''Thumbs.db'', ''docs/a.txt'']"
  using ScanDirectoryWithInfo_covers_all_but_dot_files [of "[''data'']" example_tree]
  by (simp add: scan_simps)

section \<open>C10: files below dot-directories\<close>

lemma map_keys_put: "map_keys (map_put k v (Some al)) = insert k (map_keys (Some al))"
  by (simp add: map_keys_def map_put_def map_range_def DAList.update.rep_eq dom_update)

lemma store_files_Some: "\<exists>al'. store_files files (Some al) = Some al'"
  by (induction files arbitrary: al) (simp_all add: map_put_def)

lemma map_keys_store_files:
  "map_keys (store_files files (Some al)) = map_keys (Some al) \<union> RelativePath ` set files"
proof (induction files arbitrary: al)
  case Nil
  show ?case by simp
next
  case (Cons f files)
  show ?case
    using Cons.IH [of "DAList.update (RelativePath f) f al"] map_keys_put [of "RelativePath f" f al]
    by (simp add: map_put_def)
qed

lemma filepath_Base_snoc: "filepath_Base (xs @ [leaf]) = leaf"
  by (cases xs) (simp_all add: filepath_Base_def)

lemma relative_to_append:
  "relative_to rootDir (rootDir @ dirs @ [leaf]) = join_components (dirs @ [leaf])"
  by (cases dirs) (simp_all add: relative_to_def)

text \<open>
  C10. Only the leaf name is tested for the marker: a file below the root whose leaf name
  does not begin with \<open>.\<close> is a key of the manifest BuildLocalManifest builds, whatever the
  names of the directories above it; so the manifest file \<open>.s3sync/manifest.json\<close> of the
  sync root, when it exists, is a key of the local inventory.
\<close>

theorem BuildLocalManifest_keeps_files_under_dot_directories:
  assumes "BuildLocalManifest localPath (Some root) now = Inr manifest"
  shows "(\<forall>dirs leaf. localPath @ dirs @ [leaf] \<in> set (file_paths localPath root) \<and> \<not> dot_name leaf \<longrightarrow>
            join_components (dirs @ [leaf]) \<in> map_keys (Files manifest)) \<and>
         (manifestPath (NewManifestManager localPath) \<in> set (file_paths localPath root) \<longrightarrow>
            ''.s3sync/manifest.json'' \<in> map_keys (Files manifest))"
proof -
  from assms obtain files where
    scan: "ScanDirectoryWithInfo localPath (Some root) = Inr files" and
    m: "Files manifest = store_files files make_map"
    by (auto simp: BuildLocalManifest_def split: sum.splits)
  have rels: "map RelativePath files =
        map (relative_to localPath) (filter (\<lambda>p. \<not> hidden_leaf p) (file_paths localPath root))"
    using walk_paths(1) [of localPath localPath root "[]" files] scan
    by (simp add: ScanDirectoryWithInfo_def)
  have keys: "map_keys (Files manifest) = RelativePath ` set files"
    using map_keys_store_files [of files DAList.empty]
    by (simp add: m make_map_def map_keys_def map_range_def DAList.empty.rep_eq)
  have gen: "join_components (dirs @ [leaf]) \<in> map_keys (Files manifest)"
    if "localPath @ dirs @ [leaf] \<in> set (file_paths localPath root)" and "\<not> dot_name leaf"
    for dirs leaf
  proof -
    have "\<not> hidden_leaf (localPath @ dirs @ [leaf])"
      using that(2) filepath_Base_snoc [of "localPath @ dirs" leaf] by (simp add: hidden_leaf_def)
    with that(1) have "relative_to localPath (localPath @ dirs @ [leaf]) \<in>
        set (map (relative_to localPath) (filter (\<lambda>p. \<not> hidden_leaf p) (file_paths localPath root)))"
      by simp
    then show ?thesis
      unfolding keys rels [symmetric] by (simp add: relative_to_append)
  qed
  have "''.s3sync/manifest.json'' \<in> map_keys (Files manifest)"
    if "manifestPath (NewManifestManager localPath) \<in> set (file_paths localPath root)"
    using gen [of "[''.s3sync'']" "''manifest.json''"] that
    by (simp add: NewManifestManager_def filepath_Join_def dot_name_def)
  with gen show ?thesis by blast
qed

theorem BuildLocalManifest_keeps_files_under_dot_directories_witness:
  "\<exists>manifest. BuildLocalManifest [''data''] (Some example_tree) 50 = Inr manifest \<and>
     manifestPath (NewManifestManager [''data'']) \<in> set (file_paths [''data''] example_tree) \<and>
     ''.s3sync/manifest.json'' \<in> map_keys (Files manifest)"
  using BuildLocalManifest_keeps_files_under_dot_directories
    [of "[''data'']" example_tree 50
        "\<lparr>LastSync = 50,
          Files = store_files
            [\<lparr>Path = ''data/.s3sync/manifest.json'', Size = 2, ModTime = 20, Checksum = ''44'',
               RelativePath = ''.s3sync/manifest.json''\<rparr>,
             \<lparr>Path = ''data/Thumbs.db'', Size = 3, ModTime = 30, Checksum = ''9f'',
               RelativePath = ''Thumbs.db''\<rparr>,
             \<lparr>Path = ''data/docs/a.txt'', Size = 5, ModTime = 40, Checksum = ''2c'',
               RelativePath = ''docs/a.txt''\<rparr>] make_map,
          Bucket = '''', Prefix = ''''\<rparr>"]
  by (simp add: BuildLocalManifest_def NewManifestManager_def scan_simps)


section \<open>C7: how the manifest is written\<close>

lemmas store_simps =
  SaveManifest_def LoadManifest_def CreateDirIfNotExists_def os_WriteFile_def
  toy_marshal_def toy_unmarshal_def old_disk_def

lemmas list_simps =
  ListObjects_def strings_HasSuffix_slash_def strings_Trim_quote_def strings_TrimPrefix_def
  hello_object_def md5_hello_def sha256_hello_def Let_def

lemmas run_simps =
  performPush_def performPull_def finish_run_def stop_def count_ops_def BuildLocalManifest_def
  ComputeSyncActions_def check_local_file_def check_remote_file_def After_def
  first_world_def failing_world_def pull_world_def sha256_world_def deleted_locally_world_def linked_tree_def remote_inventory_def hello_tree_def hello_local_def hello_remote_def
  hello_local_file_def hello_remote_file_def known_bytes_def

text \<open>
  C7 as stated fails: the bytes go straight to the manifest file. A save that stops after
  the file was opened and three bytes were written leaves those three bytes where the
  previous manifest was, and LoadManifest does not parse them.
\<close>

theorem SaveManifest_interrupted_leaves_partial_manifest:
  "content old_disk = Some ''{old-bucket}'' \<and>
   toy_marshal ((manifest_of [])\<lparr>LastSync := 50\<rparr>) = Some ''{bucket}'' \<and>
   SaveManifest toy_marshal 50 (Some 4) old_disk (manifest_of []) =
     (Some WriteFailed, old_disk\<lparr>content := Some ''{bu''\<rparr>) \<and>
   LoadManifest toy_unmarshal (old_disk\<lparr>content := Some ''{bu''\<rparr>) = Inl ParseFailed"
  by (simp add: store_simps manifest_of_def)

lemma os_WriteFile_content:
  "content (snd (os_WriteFile b data d)) = content d \<or>
   (\<exists>n \<le> length data. content (snd (os_WriteFile b data d)) = Some (take n data))"
proof (cases b)
  case None
  then have "content (snd (os_WriteFile b data d)) = Some (take (length data) data)"
    by (simp add: os_WriteFile_def)
  then show ?thesis by blast
next
  case (Some k)
  show ?thesis
  proof (cases k)
    case 0
    with Some show ?thesis by (simp add: os_WriteFile_def)
  next
    case (Suc n)
    show ?thesis
    proof (cases "n < length data")
      case True
      with Some Suc have "content (snd (os_WriteFile b data d)) = Some (take n data)"
        by (simp add: os_WriteFile_def)
      with True show ?thesis by (meson less_imp_le)
    next
      case False
      with Some Suc have "content (snd (os_WriteFile b data d)) = Some (take (length data) data)"
        by (simp add: os_WriteFile_def)
      then show ?thesis by blast
    qed
  qed
qed

lemma CreateDirIfNotExists_content:
  "content (fst (snd (CreateDirIfNotExists b d))) = content d"
  by (simp add: CreateDirIfNotExists_def split: option.splits nat.splits)

text \<open>
  C7, amended. SaveManifest writes the marshalled manifest to the manifest path itself, with
  no temporary file and no rename: a save that is not interrupted stores exactly the new
  bytes, a save that returns no error has stored them, and whatever happens the file holds
  either what it held before or a prefix of the new bytes. The write is in place: a save
  that stops after the file was opened and \<open>n\<close> of the new bytes were written, \<open>n\<close> less than
  their number, returns the write error and leaves exactly those \<open>n\<close> bytes in the manifest
  file, whatever the file held before.
\<close>

theorem SaveManifest_writes_in_place:
  assumes "marshal (manifest\<lparr>LastSync := now\<rparr>) = Some data"
  shows "SaveManifest marshal now None d manifest =
           (None, d\<lparr>dir_exists := True, content := Some data\<rparr>) \<and>
         (fst (SaveManifest marshal now budget d manifest) = None \<longrightarrow>
            content (snd (SaveManifest marshal now budget d manifest)) = Some data) \<and>
         (content (snd (SaveManifest marshal now budget d manifest)) = content d \<or>
          (\<exists>n \<le> length data.
             content (snd (SaveManifest marshal now budget d manifest)) = Some (take n data))) \<and>
         (dir_exists d \<and> k < length data \<longrightarrow>
            SaveManifest marshal now (Some (Suc k)) d manifest =
              (Some WriteFailed, d\<lparr>content := Some (take k data)\<rparr>)) \<and>
         (\<not> dir_exists d \<and> k < length data \<longrightarrow>
            SaveManifest marshal now (Some (Suc (Suc k))) d manifest =
              (Some WriteFailed, d\<lparr>dir_exists := True, content := Some (take k data)\<rparr>))"
proof (intro conjI)
  show "dir_exists d \<and> k < length data \<longrightarrow>
            SaveManifest marshal now (Some (Suc k)) d manifest =
              (Some WriteFailed, d\<lparr>content := Some (take k data)\<rparr>)"
    using assms by (simp add: SaveManifest_def CreateDirIfNotExists_def os_WriteFile_def)
  show "\<not> dir_exists d \<and> k < length data \<longrightarrow>
            SaveManifest marshal now (Some (Suc (Suc k))) d manifest =
              (Some WriteFailed, d\<lparr>dir_exists := True, content := Some (take k data)\<rparr>)"
    using assms by (simp add: SaveManifest_def CreateDirIfNotExists_def os_WriteFile_def)
  show "SaveManifest marshal now None d manifest =
           (None, d\<lparr>dir_exists := True, content := Some data\<rparr>)"
    using assms by (cases "dir_exists d") (simp_all add: SaveManifest_def CreateDirIfNotExists_def os_WriteFile_def)
  show "fst (SaveManifest marshal now budget d manifest) = None \<longrightarrow>
            content (snd (SaveManifest marshal now budget d manifest)) = Some data"
    using assms
    by (auto simp: SaveManifest_def CreateDirIfNotExists_def os_WriteFile_def
             split: option.splits nat.splits if_splits)
  show "content (snd (SaveManifest marshal now budget d manifest)) = content d \<or>
          (\<exists>n \<le> length data.
             content (snd (SaveManifest marshal now budget d manifest)) = Some (take n data))"
  proof (cases "CreateDirIfNotExists budget d")
    case (fields ok d1 budget1)
    have c1: "content d1 = content d"
      using CreateDirIfNotExists_content [of budget d] fields by simp
    show ?thesis
    proof (cases ok)
      case False
      with fields c1 show ?thesis by (simp add: SaveManifest_def)
    next
      case True
      have "snd (SaveManifest marshal now budget d manifest) = snd (os_WriteFile budget1 data d1)"
        using fields True assms by (simp add: SaveManifest_def split: prod.splits bool.splits)
      with os_WriteFile_content [of budget1 data d1] c1 show ?thesis by simp
    qed
  qed
qed

theorem SaveManifest_writes_in_place_witness:
  "SaveManifest toy_marshal 50 None old_disk (manifest_of []) =
     (None, old_disk\<lparr>dir_exists := True, content := Some ''{bucket}''\<rparr>) \<and>
   content (snd (SaveManifest toy_marshal 50 (Some 4) old_disk (manifest_of []))) =
     Some (take 3 ''{bucket}'') \<and>
   SaveManifest toy_marshal 50 (Some 4) old_disk (manifest_of []) =
     (Some WriteFailed, old_disk\<lparr>content := Some ''{bu''\<rparr>) \<and>
   SaveManifest toy_marshal 50 (Some 5) (old_disk\<lparr>dir_exists := False\<rparr>) (manifest_of []) =
     (Some WriteFailed, old_disk\<lparr>content := Some ''{bu''\<rparr>)"
  using SaveManifest_writes_in_place [where marshal = toy_marshal and manifest = "manifest_of []"
          and now = 50 and data = "''{bucket}''" and d = old_disk and budget = "Some 4" and k = 3]
        SaveManifest_writes_in_place [where marshal = toy_marshal and manifest = "manifest_of []"
          and now = 50 and data = "''{bucket}''" and d = "old_disk\<lparr>dir_exists := False\<rparr>"
          and budget = "Some 5" and k = 3]
  by (simp add: store_simps manifest_of_def)

section \<open>C3: a second run\<close>

text \<open>
  C3 at one file. The first push of a tree holding \<open>a.txt\<close> saves the local inventory, with
  the SHA-256 digest of the file; the listing of the uploaded object carries its ETag, an MD5
  digest. With the saved manifest as last-known inventory the engine decides a download of
  the unchanged file, not a skip.
\<close>

theorem second_push_decides_download:
  "BuildLocalManifest [''data''] (Some hello_tree) 140 = Inr (hello_local\<lparr>Bucket := ''''\<rparr>) \<and>
   ListObjects '''' [Some [hello_object]] = Some [hello_remote_file] \<and>
   saved (performPush [''data''] ''bucket'' False first_world) = Some hello_local \<and>
   ComputeSyncActions (Some hello_local) (Some hello_remote) (Some hello_local) =
     Inr [\<lparr>Operation = SyncOpDownload, File = hello_remote_file, ActionPath = ''a.txt'',
           Reason = ''remote file modified''\<rparr>]"
  by (simp add: run_simps list_simps store_simps scan_simps example_simps)



section \<open>C8: when a run saves the manifest\<close>

lemma wanted_keys_Cons:
  "wanted_keys op (a # actions) =
     (if Operation a = op then ActionPath a # wanted_keys op actions else wanted_keys op actions)"
  by (simp add: wanted_keys_def)

lemma count_ops_wanted: "(count_ops op actions = 0) = (wanted_keys op actions = [])"
  by (simp add: count_ops_def wanted_keys_def)

lemma transfer_all_ok:
  "\<forall>k \<in> set (wanted_keys op actions). ok k \<Longrightarrow>
     transfer_all op ok effect actions sent d =
       (None, sent @ wanted_keys op actions, fold effect (wanted_keys op actions) d)"
proof (induction actions arbitrary: sent d)
  case Nil
  show ?case by (simp add: wanted_keys_def)
next
  case (Cons a actions)
  show ?case
  proof (cases "Operation a = op")
    case True
    with Cons.prems have ok: "ok (ActionPath a)"
      and rest: "\<forall>k \<in> set (wanted_keys op actions). ok k"
      by (simp_all add: wanted_keys_Cons)
    from Cons.IH [OF rest, of "sent @ [ActionPath a]" "effect (ActionPath a) d"] True ok
    show ?thesis by (simp add: wanted_keys_Cons)
  next
    case False
    with Cons.prems have rest: "\<forall>k \<in> set (wanted_keys op actions). ok k"
      by (simp add: wanted_keys_Cons)
    from Cons.IH [OF rest, of sent d] False show ?thesis by (simp add: wanted_keys_Cons)
  qed
qed

lemma transfer_all_fails:
  "wanted_keys op actions = before @ key # after \<Longrightarrow> \<forall>k \<in> set before. ok k \<Longrightarrow> \<not> ok key \<Longrightarrow>
     transfer_all op ok effect actions sent d =
       (Some (TransferError key), sent @ before, fold effect (before @ [key]) d)"
proof (induction actions arbitrary: sent d before)
  case Nil
  then show ?case by (simp add: wanted_keys_def)
next
  case (Cons a actions)
  show ?case
  proof (cases "Operation a = op")
    case False
    with Cons.prems(1) have w: "wanted_keys op actions = before @ key # after"
      by (simp add: wanted_keys_Cons)
    from Cons.IH [OF w Cons.prems(2,3), of sent d] False show ?thesis by simp
  next
    case True
    with Cons.prems(1) have w: "ActionPath a # wanted_keys op actions = before @ key # after"
      by (simp add: wanted_keys_Cons)
    show ?thesis
    proof (cases before)
      case Nil
      with w have "ActionPath a = key" by simp
      with True Nil Cons.prems(3) show ?thesis by simp
    next
      case (Cons b bs)
      with w have b: "b = ActionPath a" and rest: "wanted_keys op actions = bs @ key # after"
        by simp_all
      from Cons Cons.prems(2) have okb: "ok b" and okbs: "\<forall>k \<in> set bs. ok k"
        by simp_all
      from Cons.IH [OF rest okbs Cons.prems(3), of "sent @ [b]" "effect b d"] True b okb Cons
      show ?thesis by simp
    qed
  qed
qed

lemma first_failure:
  "\<not> (\<forall>k \<in> set ks. ok k) \<Longrightarrow>
     \<exists>before key after. ks = before @ key # after \<and> (\<forall>k \<in> set before. ok k) \<and> \<not> ok key"
proof -
  assume "\<not> (\<forall>k \<in> set ks. ok k)"
  then have "\<exists>k \<in> set ks. \<not> ok k" by simp
  then obtain before key after where
    "ks = before @ key # after" "\<not> ok key" "\<forall>k \<in> set before. \<not> \<not> ok k"
    using split_list_first_prop [of ks "\<lambda>k. \<not> ok k"] by blast
  then show ?thesis by auto
qed

lemma SaveManifest_done:
  "SaveManifest marshal now b d m = (None, d') \<Longrightarrow>
     \<exists>data. marshal (m\<lparr>LastSync := now\<rparr>) = Some data \<and> content d' = Some data"
  by (auto simp: SaveManifest_def CreateDirIfNotExists_def os_WriteFile_def
           split: option.splits nat.splits if_splits prod.splits bool.splits)

lemma finish_run_follows:
  "run_follows op effect dryRun w actions m (finish_run w op effect dryRun actions m)"
  unfolding run_follows_def
proof (intro conjI allI impI)
  show "decided (finish_run w op effect dryRun actions m) = actions"
    by (simp add: finish_run_def stop_def split: prod.splits option.splits)
next
  assume "dryRun \<or> wanted_keys op actions = []"
  then show "result (finish_run w op effect dryRun actions m) = None"
    and "transferred (finish_run w op effect dryRun actions m) = []"
    and "saved (finish_run w op effect dryRun actions m) = None"
    and "disk_after (finish_run w op effect dryRun actions m) = disk w"
    by (auto simp: finish_run_def stop_def count_ops_wanted)
next
  fix before key after
  assume a: "\<not> dryRun \<and> wanted_keys op actions = before @ key # after \<and>
        (\<forall>k \<in> set before. transfer_ok w k) \<and> \<not> transfer_ok w key"
  then have t: "transfer_all op (transfer_ok w) effect actions [] (disk w) =
       (Some (TransferError key), before, fold effect (before @ [key]) (disk w))"
    using transfer_all_fails [of op actions before key after "transfer_ok w" effect "[]" "disk w"]
    by simp
  from a have n: "count_ops op actions \<noteq> 0" by (simp add: count_ops_wanted)
  from a t n show "result (finish_run w op effect dryRun actions m) = Some (TransferError key)"
    and "transferred (finish_run w op effect dryRun actions m) = before"
    and "saved (finish_run w op effect dryRun actions m) = None"
    and "disk_after (finish_run w op effect dryRun actions m) =
           fold effect (before @ [key]) (disk w)"
    by (simp_all add: finish_run_def)
next
  assume a: "\<not> dryRun \<and> wanted_keys op actions \<noteq> [] \<and>
      (\<forall>k \<in> set (wanted_keys op actions). transfer_ok w k)"
  then have t: "transfer_all op (transfer_ok w) effect actions [] (disk w) =
       (None, wanted_keys op actions, fold effect (wanted_keys op actions) (disk w))"
    using transfer_all_ok [of op actions "transfer_ok w" effect "[]" "disk w"] by simp
  from a have n: "count_ops op actions \<noteq> 0" by (simp add: count_ops_wanted)
  from a t n show "transferred (finish_run w op effect dryRun actions m) = wanted_keys op actions"
    by (simp add: finish_run_def split: prod.splits option.splits)
  from a t n show "case SaveManifest (json_Marshal w) (clock w) (io_budget w)
                (fold effect (wanted_keys op actions) (disk w)) m of
           (None, d) \<Rightarrow>
             result (finish_run w op effect dryRun actions m) = None \<and>
             saved (finish_run w op effect dryRun actions m) = Some (m\<lparr>LastSync := clock w\<rparr>) \<and>
             disk_after (finish_run w op effect dryRun actions m) = d
         | (Some err, d) \<Rightarrow>
             result (finish_run w op effect dryRun actions m) = Some (SaveManifestError err) \<and>
             saved (finish_run w op effect dryRun actions m) = None \<and>
             disk_after (finish_run w op effect dryRun actions m) = d"
    by (simp add: finish_run_def split: prod.splits option.splits)
qed

lemma run_follows_saved_iff:
  assumes f: "run_follows op effect dryRun w actions m r"
  shows "(saved r \<noteq> None) =
         (\<not> dryRun \<and> wanted_keys op actions \<noteq> [] \<and>
          (\<forall>k \<in> set (wanted_keys op actions). transfer_ok w k) \<and>
          fst (SaveManifest (json_Marshal w) (clock w) (io_budget w)
                 (fold effect (wanted_keys op actions) (disk w)) m) = None)"
proof (cases "dryRun \<or> wanted_keys op actions = []")
  case True
  with f have "saved r = None" unfolding run_follows_def by blast
  with True show ?thesis by auto
next
  case gate: False
  show ?thesis
  proof (cases "\<forall>k \<in> set (wanted_keys op actions). transfer_ok w k")
    case False
    then obtain before key after where
      "wanted_keys op actions = before @ key # after" "\<forall>k \<in> set before. transfer_ok w k"
      "\<not> transfer_ok w key"
      using first_failure [of "wanted_keys op actions" "transfer_ok w"] by blast
    with f gate have "saved r = None" unfolding run_follows_def by blast
    with False show ?thesis by simp
  next
    case True
    obtain serr d' where sm: "SaveManifest (json_Marshal w) (clock w) (io_budget w)
                (fold effect (wanted_keys op actions) (disk w)) m = (serr, d')"
      by (cases "SaveManifest (json_Marshal w) (clock w) (io_budget w)
                   (fold effect (wanted_keys op actions) (disk w)) m")
    from f gate True have "case SaveManifest (json_Marshal w) (clock w) (io_budget w)
                (fold effect (wanted_keys op actions) (disk w)) m of
           (None, d) \<Rightarrow> result r = None \<and> saved r = Some (m\<lparr>LastSync := clock w\<rparr>) \<and>
             disk_after r = d
         | (Some err, d) \<Rightarrow> result r = Some (SaveManifestError err) \<and> saved r = None \<and>
             disk_after r = d"
      unfolding run_follows_def by simp
    with sm gate True show ?thesis by (cases serr) simp_all
  qed
qed

lemma finish_run_saved_only_when:
  "saved_only_when op dryRun w (finish_run w op effect dryRun actions m)"
  unfolding saved_only_when_def
proof (intro allI impI)
  fix m'
  let ?r = "finish_run w op effect dryRun actions m"
  let ?keys = "wanted_keys op actions"
  assume s: "saved ?r = Some m'"
  have f: "run_follows op effect dryRun w actions m ?r"
    by (rule finish_run_follows)
  then have dec: "decided ?r = actions"
    by (simp add: run_follows_def)
  have gate: "\<not> (dryRun \<or> ?keys = [])"
    using f s by (auto simp: run_follows_def)
  have allok: "\<forall>k \<in> set ?keys. transfer_ok w k"
  proof (rule ccontr)
    assume "\<not> (\<forall>k \<in> set ?keys. transfer_ok w k)"
    then obtain before key after where
      "?keys = before @ key # after" "\<forall>k \<in> set before. transfer_ok w k" "\<not> transfer_ok w key"
      using first_failure [of ?keys "transfer_ok w"] by blast
    with f gate have "saved ?r = None"
      unfolding run_follows_def by blast
    with s show False by simp
  qed
  from f gate allok have tr: "transferred ?r = ?keys"
    and sv: "case SaveManifest (json_Marshal w) (clock w) (io_budget w)
                (fold effect ?keys (disk w)) m of
           (None, d) \<Rightarrow> result ?r = None \<and> saved ?r = Some (m\<lparr>LastSync := clock w\<rparr>) \<and>
             disk_after ?r = d
         | (Some err, d) \<Rightarrow> result ?r = Some (SaveManifestError err) \<and> saved ?r = None \<and>
             disk_after ?r = d"
    unfolding run_follows_def by simp_all
  obtain serr d' where sm: "SaveManifest (json_Marshal w) (clock w) (io_budget w)
                (fold effect ?keys (disk w)) m = (serr, d')"
    by (cases "SaveManifest (json_Marshal w) (clock w) (io_budget w) (fold effect ?keys (disk w)) m")
  from sv sm s have none: "serr = None"
    by (cases serr) simp_all
  with sv sm have res: "result ?r = None" and m': "saved ?r = Some (m\<lparr>LastSync := clock w\<rparr>)"
    and da: "disk_after ?r = d'"
    by simp_all
  from sm none SaveManifest_done [of "json_Marshal w" "clock w" "io_budget w" "fold effect ?keys (disk w)" m d']
  obtain data where "json_Marshal w (m\<lparr>LastSync := clock w\<rparr>) = Some data" "content d' = Some data"
    by blast
  with s m' da have "\<exists>data. json_Marshal w m' = Some data \<and> content (disk_after ?r) = Some data"
    by simp
  with gate res tr allok dec
  show "\<not> dryRun \<and> result ?r = None \<and> wanted_keys op (decided ?r) \<noteq> [] \<and>
        transferred ?r = wanted_keys op (decided ?r) \<and>
        (\<forall>k \<in> set (transferred ?r). transfer_ok w k) \<and>
        (\<exists>data. json_Marshal w m' = Some data \<and> content (disk_after ?r) = Some data)"
    by simp
qed

lemma finish_run_saved:
  "saved (finish_run w op effect dryRun actions m) = Some m' \<Longrightarrow> m' = m\<lparr>LastSync := clock w\<rparr>"
  by (auto simp: finish_run_def stop_def split: if_splits prod.splits option.splits)

lemma performPush_cases:
  assumes "\<And>e. P (stop w (Some e))"
      and "\<And>built actions. BuildLocalManifest localPath (local_tree w) (clock w) = Inr built \<Longrightarrow>
             P (finish_run w SyncOpUpload (\<lambda>key d. d) dryRun actions (built\<lparr>Bucket := bucketName\<rparr>))"
  shows "P (performPush localPath bucketName dryRun w)"
  by (simp add: performPush_def Let_def assms split: option.splits bool.splits sum.splits)

lemma performPull_cases:
  assumes "\<And>e. P (stop w (Some e))"
      and "\<And>remoteFiles actions. ListObjects '''' (bucket_pages w) = Some remoteFiles \<Longrightarrow>
             P (finish_run w SyncOpDownload (download_effect w) dryRun actions
                  (remote_inventory bucketName remoteFiles))"
  shows "P (performPull bucketName localPath dryRun w)"
  by (simp add: performPull_def Let_def assms [unfolded remote_inventory_def]
           split: option.splits bool.splits sum.splits)

text \<open>
  C8 as stated fails: a push with nothing to upload returns before SaveManifest. Here the
  only action is a skip (the file was deleted locally), no transfer fails, the run returns
  no error, and the manifest location is as it was.
\<close>

theorem all_skip_push_saves_nothing:
  "performPush [''data''] ''bucket'' False deleted_locally_world =
     \<lparr>result = None,
      decided = [\<lparr>Operation = SyncOpSkip, File = hello_remote_file, ActionPath = ''a.txt'',
                  Reason = ''deleted locally''\<rparr>],
      transferred = [], saved = None, disk_after = disk deleted_locally_world\<rparr>"
  by (simp add: run_simps list_simps store_simps scan_simps example_simps)

text \<open>
  C8, amended. A push (pull) run saves the manifest if and only if its preparation succeeds,
  it is not a dry run, its action list holds at least one upload (download), every such
  transfer completes without error, and SaveManifest itself returns no error. The transfers
  are made in the order of the list; the first one that fails ends the run with its error
  before any later transfer and before SaveManifest is called. A dry run and a run with
  nothing to transfer (in particular one whose actions are all skips) return no error and
  save nothing. The manifest saved is the local inventory with the bucket for a push and the
  remote inventory with the bucket for a pull, stamped with the time of saving, and its
  marshalled bytes are what the manifest file holds afterwards.
\<close>

theorem manifest_saved_only_after_all_transfers:
  "(client_ok w \<and> bucket_check w = Some True \<and>
    LoadManifest (json_Unmarshal w) (disk w) = Inr lastManifest \<and>
    BuildLocalManifest localPath (local_tree w) (clock w) = Inr built \<and>
    ListObjects '''' (bucket_pages w) = Some remoteFiles \<and>
    ComputeSyncActions (Some (built\<lparr>Bucket := bucketName\<rparr>))
      (Some (remote_inventory bucketName remoteFiles)) (Some lastManifest) = Inr actions \<longrightarrow>
      run_follows SyncOpUpload (\<lambda>key d. d) dryRun w actions (built\<lparr>Bucket := bucketName\<rparr>)
        (performPush localPath bucketName dryRun w) \<and>
      (saved (performPush localPath bucketName dryRun w) \<noteq> None \<longleftrightarrow>
         \<not> dryRun \<and> wanted_keys SyncOpUpload actions \<noteq> [] \<and>
         (\<forall>k \<in> set (wanted_keys SyncOpUpload actions). transfer_ok w k) \<and>
         fst (SaveManifest (json_Marshal w) (clock w) (io_budget w) (disk w)
                (built\<lparr>Bucket := bucketName\<rparr>)) = None)) \<and>
   saved_only_when SyncOpUpload dryRun w (performPush localPath bucketName dryRun w) \<and>
   (\<forall>m. saved (performPush localPath bucketName dryRun w) = Some m \<longrightarrow>
      (\<exists>scanned. BuildLocalManifest localPath (local_tree w) (clock w) = Inr scanned \<and>
         m = scanned\<lparr>Bucket := bucketName, LastSync := clock w\<rparr>)) \<and>
   (client_ok w \<and> bucket_check w = Some True \<and> (local_tree w \<noteq> None \<or> local_mkdir_ok w) \<and>
    LoadManifest (json_Unmarshal w) (disk w) = Inr lastManifest \<and>
    BuildLocalManifest localPath
      (case local_tree w of None \<Rightarrow> Some (Directory []) | Some t \<Rightarrow> Some t) (clock w) =
      Inr localManifest \<and>
    ListObjects '''' (bucket_pages w) = Some remoteFiles \<and>
    ComputeSyncActions (Some localManifest)
      (Some (remote_inventory bucketName remoteFiles)) (Some lastManifest) = Inr pullActions \<longrightarrow>
      run_follows SyncOpDownload (download_effect w) dryRun w pullActions
        (remote_inventory bucketName remoteFiles)
        (performPull bucketName localPath dryRun w) \<and>
      (saved (performPull bucketName localPath dryRun w) \<noteq> None \<longleftrightarrow>
         \<not> dryRun \<and> wanted_keys SyncOpDownload pullActions \<noteq> [] \<and>
         (\<forall>k \<in> set (wanted_keys SyncOpDownload pullActions). transfer_ok w k) \<and>
         fst (SaveManifest (json_Marshal w) (clock w) (io_budget w)
                (fold (download_effect w) (wanted_keys SyncOpDownload pullActions) (disk w))
                (remote_inventory bucketName remoteFiles)) = None)) \<and>
   saved_only_when SyncOpDownload dryRun w (performPull bucketName localPath dryRun w) \<and>
   (\<forall>m. saved (performPull bucketName localPath dryRun w) = Some m \<longrightarrow>
      (\<exists>listed. ListObjects '''' (bucket_pages w) = Some listed \<and>
         m = (remote_inventory bucketName listed)\<lparr>LastSync := clock w\<rparr>))"
proof (intro conjI)
  show "client_ok w \<and> bucket_check w = Some True \<and>
    LoadManifest (json_Unmarshal w) (disk w) = Inr lastManifest \<and>
    BuildLocalManifest localPath (local_tree w) (clock w) = Inr built \<and>
    ListObjects '''' (bucket_pages w) = Some remoteFiles \<and>
    ComputeSyncActions (Some (built\<lparr>Bucket := bucketName\<rparr>))
      (Some (remote_inventory bucketName remoteFiles)) (Some lastManifest) = Inr actions \<longrightarrow>
      run_follows SyncOpUpload (\<lambda>key d. d) dryRun w actions (built\<lparr>Bucket := bucketName\<rparr>)
        (performPush localPath bucketName dryRun w) \<and>
      (saved (performPush localPath bucketName dryRun w) \<noteq> None \<longleftrightarrow>
         \<not> dryRun \<and> wanted_keys SyncOpUpload actions \<noteq> [] \<and>
         (\<forall>k \<in> set (wanted_keys SyncOpUpload actions). transfer_ok w k) \<and>
         fst (SaveManifest (json_Marshal w) (clock w) (io_budget w) (disk w)
                (built\<lparr>Bucket := bucketName\<rparr>)) = None)"
  proof
    assume h: "client_ok w \<and> bucket_check w = Some True \<and>
      LoadManifest (json_Unmarshal w) (disk w) = Inr lastManifest \<and>
      BuildLocalManifest localPath (local_tree w) (clock w) = Inr built \<and>
      ListObjects '''' (bucket_pages w) = Some remoteFiles \<and>
      ComputeSyncActions (Some (built\<lparr>Bucket := bucketName\<rparr>))
        (Some (remote_inventory bucketName remoteFiles)) (Some lastManifest) = Inr actions"
    then have "performPush localPath bucketName dryRun w =
        finish_run w SyncOpUpload (\<lambda>key d. d) dryRun actions (built\<lparr>Bucket := bucketName\<rparr>)"
      by (simp add: performPush_def Let_def remote_inventory_def)
    then have f: "run_follows SyncOpUpload (\<lambda>key d. d) dryRun w actions
        (built\<lparr>Bucket := bucketName\<rparr>) (performPush localPath bucketName dryRun w)"
      by (simp add: finish_run_follows)
    have "fold (\<lambda>key d. d) ks d0 = d0" for ks :: "string list" and d0 :: manifest_disk
      by (induction ks) simp_all
    with run_follows_saved_iff [OF f] f
    show "run_follows SyncOpUpload (\<lambda>key d. d) dryRun w actions (built\<lparr>Bucket := bucketName\<rparr>)
        (performPush localPath bucketName dryRun w) \<and>
      (saved (performPush localPath bucketName dryRun w) \<noteq> None \<longleftrightarrow>
         \<not> dryRun \<and> wanted_keys SyncOpUpload actions \<noteq> [] \<and>
         (\<forall>k \<in> set (wanted_keys SyncOpUpload actions). transfer_ok w k) \<and>
         fst (SaveManifest (json_Marshal w) (clock w) (io_budget w) (disk w)
                (built\<lparr>Bucket := bucketName\<rparr>)) = None)"
      by simp
  qed
next
  show "client_ok w \<and> bucket_check w = Some True \<and> (local_tree w \<noteq> None \<or> local_mkdir_ok w) \<and>
    LoadManifest (json_Unmarshal w) (disk w) = Inr lastManifest \<and>
    BuildLocalManifest localPath
      (case local_tree w of None \<Rightarrow> Some (Directory []) | Some t \<Rightarrow> Some t) (clock w) =
      Inr localManifest \<and>
    ListObjects '''' (bucket_pages w) = Some remoteFiles \<and>
    ComputeSyncActions (Some localManifest)
      (Some (remote_inventory bucketName remoteFiles)) (Some lastManifest) = Inr pullActions \<longrightarrow>
      run_follows SyncOpDownload (download_effect w) dryRun w pullActions
        (remote_inventory bucketName remoteFiles)
        (performPull bucketName localPath dryRun w) \<and>
      (saved (performPull bucketName localPath dryRun w) \<noteq> None \<longleftrightarrow>
         \<not> dryRun \<and> wanted_keys SyncOpDownload pullActions \<noteq> [] \<and>
         (\<forall>k \<in> set (wanted_keys SyncOpDownload pullActions). transfer_ok w k) \<and>
         fst (SaveManifest (json_Marshal w) (clock w) (io_budget w)
                (fold (download_effect w) (wanted_keys SyncOpDownload pullActions) (disk w))
                (remote_inventory bucketName remoteFiles)) = None)"
  proof
    assume h: "client_ok w \<and> bucket_check w = Some True \<and> (local_tree w \<noteq> None \<or> local_mkdir_ok w) \<and>
      LoadManifest (json_Unmarshal w) (disk w) = Inr lastManifest \<and>
      BuildLocalManifest localPath
        (case local_tree w of None \<Rightarrow> Some (Directory []) | Some t \<Rightarrow> Some t) (clock w) =
        Inr localManifest \<and>
      ListObjects '''' (bucket_pages w) = Some remoteFiles \<and>
      ComputeSyncActions (Some localManifest)
        (Some (remote_inventory bucketName remoteFiles)) (Some lastManifest) = Inr pullActions"
    then have "performPull bucketName localPath dryRun w =
        finish_run w SyncOpDownload (download_effect w) dryRun pullActions
          (remote_inventory bucketName remoteFiles)"
      by (auto simp: performPull_def Let_def remote_inventory_def)
    then have f: "run_follows SyncOpDownload (download_effect w) dryRun w pullActions
        (remote_inventory bucketName remoteFiles) (performPull bucketName localPath dryRun w)"
      by (simp add: finish_run_follows)
    with run_follows_saved_iff [OF f]
    show "run_follows SyncOpDownload (download_effect w) dryRun w pullActions
        (remote_inventory bucketName remoteFiles)
        (performPull bucketName localPath dryRun w) \<and>
      (saved (performPull bucketName localPath dryRun w) \<noteq> None \<longleftrightarrow>
         \<not> dryRun \<and> wanted_keys SyncOpDownload pullActions \<noteq> [] \<and>
         (\<forall>k \<in> set (wanted_keys SyncOpDownload pullActions). transfer_ok w k) \<and>
         fst (SaveManifest (json_Marshal w) (clock w) (io_budget w)
                (fold (download_effect w) (wanted_keys SyncOpDownload pullActions) (disk w))
                (remote_inventory bucketName remoteFiles)) = None)"
      by simp
  qed
next
  show "saved_only_when SyncOpUpload dryRun w (performPush localPath bucketName dryRun w)"
    by (rule performPush_cases)
       (simp_all add: finish_run_saved_only_when, simp add: saved_only_when_def stop_def)
  show "saved_only_when SyncOpDownload dryRun w (performPull bucketName localPath dryRun w)"
    by (rule performPull_cases)
       (simp_all add: finish_run_saved_only_when, simp add: saved_only_when_def stop_def)
next
  show "\<forall>m. saved (performPush localPath bucketName dryRun w) = Some m \<longrightarrow>
      (\<exists>scanned. BuildLocalManifest localPath (local_tree w) (clock w) = Inr scanned \<and>
         m = scanned\<lparr>Bucket := bucketName, LastSync := clock w\<rparr>)"
  proof (rule performPush_cases)
    fix e
    show "\<forall>m. saved (stop w (Some e)) = Some m \<longrightarrow>
      (\<exists>scanned. BuildLocalManifest localPath (local_tree w) (clock w) = Inr scanned \<and>
         m = scanned\<lparr>Bucket := bucketName, LastSync := clock w\<rparr>)"
      by (simp add: stop_def)
  next
    fix scanned acts
    assume b: "BuildLocalManifest localPath (local_tree w) (clock w) = Inr scanned"
    show "\<forall>m. saved (finish_run w SyncOpUpload (\<lambda>key d. d) dryRun acts
                        (scanned\<lparr>Bucket := bucketName\<rparr>)) = Some m \<longrightarrow>
      (\<exists>scanned. BuildLocalManifest localPath (local_tree w) (clock w) = Inr scanned \<and>
         m = scanned\<lparr>Bucket := bucketName, LastSync := clock w\<rparr>)"
      using b finish_run_saved [of w SyncOpUpload "\<lambda>key d. d" dryRun acts
          "scanned\<lparr>Bucket := bucketName\<rparr>"]
      by auto
  qed
next
  show "\<forall>m. saved (performPull bucketName localPath dryRun w) = Some m \<longrightarrow>
      (\<exists>listed. ListObjects '''' (bucket_pages w) = Some listed \<and>
         m = (remote_inventory bucketName listed)\<lparr>LastSync := clock w\<rparr>)"
  proof (rule performPull_cases)
    fix e
    show "\<forall>m. saved (stop w (Some e)) = Some m \<longrightarrow>
      (\<exists>listed. ListObjects '''' (bucket_pages w) = Some listed \<and>
         m = (remote_inventory bucketName listed)\<lparr>LastSync := clock w\<rparr>)"
      by (simp add: stop_def)
  next
    fix listed acts
    assume l: "ListObjects '''' (bucket_pages w) = Some listed"
    show "\<forall>m. saved (finish_run w SyncOpDownload (download_effect w) dryRun acts
                        (remote_inventory bucketName listed)) = Some m \<longrightarrow>
      (\<exists>listed. ListObjects '''' (bucket_pages w) = Some listed \<and>
         m = (remote_inventory bucketName listed)\<lparr>LastSync := clock w\<rparr>)"
      using l finish_run_saved [of w SyncOpDownload "download_effect w" dryRun acts
          "remote_inventory bucketName listed"]
      by auto
  qed
qed

theorem manifest_saved_only_after_all_transfers_witness:
  "saved (performPush [''data''] ''bucket'' False first_world) = Some hello_local \<and>
   transferred (performPush [''data''] ''bucket'' False first_world) = [''a.txt''] \<and>
   content (disk_after (performPush [''data''] ''bucket'' False first_world)) = Some ''{bucket}'' \<and>
   saved (performPush [''data''] ''bucket'' True first_world) = None \<and>
   result (performPush [''data''] ''bucket'' False failing_world) = Some (TransferError ''a.txt'') \<and>
   transferred (performPush [''data''] ''bucket'' False failing_world) = [] \<and>
   saved (performPush [''data''] ''bucket'' False failing_world) = None \<and>
   disk_after (performPush [''data''] ''bucket'' False failing_world) = disk failing_world \<and>
   saved (performPull ''bucket'' [''data''] False pull_world) = Some (hello_remote\<lparr>LastSync := 140\<rparr>) \<and>
   transferred (performPull ''bucket'' [''data''] False pull_world) = [''a.txt'']"
  using manifest_saved_only_after_all_transfers
          [where w = first_world and localPath = "[''data'']" and bucketName = "''bucket''"
             and dryRun = False
             and lastManifest = "\<lparr>LastSync = 0, Files = make_map, Bucket = '''', Prefix = ''''\<rparr>"
             and built = "hello_local\<lparr>Bucket := ''''\<rparr>" and remoteFiles = "[]"
             and actions = "[\<lparr>Operation = SyncOpUpload, File = hello_local_file,
                               ActionPath = ''a.txt'', Reason = ''new local file''\<rparr>]"]
        manifest_saved_only_after_all_transfers
          [where w = first_world and localPath = "[''data'']" and bucketName = "''bucket''"
             and dryRun = True
             and lastManifest = "\<lparr>LastSync = 0, Files = make_map, Bucket = '''', Prefix = ''''\<rparr>"
             and built = "hello_local\<lparr>Bucket := ''''\<rparr>" and remoteFiles = "[]"
             and actions = "[\<lparr>Operation = SyncOpUpload, File = hello_local_file,
                               ActionPath = ''a.txt'', Reason = ''new local file''\<rparr>]"]
        manifest_saved_only_after_all_transfers
          [where w = failing_world and localPath = "[''data'']" and bucketName = "''bucket''"
             and dryRun = False]
        manifest_saved_only_after_all_transfers
          [where w = pull_world and localPath = "[''data'']" and bucketName = "''bucket''"
             and dryRun = False
             and lastManifest = "\<lparr>LastSync = 0, Files = make_map, Bucket = '''', Prefix = ''''\<rparr>"
             and localManifest = "\<lparr>LastSync = 140, Files = make_map, Bucket = '''', Prefix = ''''\<rparr>"
             and remoteFiles = "[hello_remote_file]"
             and pullActions = "[\<lparr>Operation = SyncOpDownload, File = hello_remote_file,
                               ActionPath = ''a.txt'', Reason = ''new remote file''\<rparr>]"]
  by (simp add: run_simps list_simps store_simps scan_simps example_simps)

end
